theory Spec2Isabelle
  imports Complex_Main "HOL-Library.Multiset"
begin

section \<open>Python and numpy values\<close>

text \<open>
  The driver \<open>Dtwa_BBGKY_System_opt.dtwa_bbgky\<close> of \<open>dtwa_bbgky_opt.py\<close> is embedded as a
  function of one process of the MPI group. Python integers are \<open>int\<close>; ranks, the group
  size and counts, which MPI and the counting loop keep non-negative, are \<open>nat\<close>. The
  arithmetic of the time grid is double precision, every operation rounded to the nearest
  double; the observables that the collaborators return and their sums are exact reals,
  and the error state set by \<open>np.seterr\<close> is outside the model. Every raise and every \<open>exit\<close> of the source is a value
  of \<open>py_error\<close>; \<open>Diverges\<close> stands for a process that never returns.
\<close>

datatype py_error =
  ValueError | ZeroDivisionError | AttributeError | MPIError | SystemExit int | Diverges

text \<open>The values the caller may pass as \<open>time_info\<close>; \<open>PyFloat\<close> is a single scalar.\<close>

datatype time_info =
  PyTuple "real list" | PyList "real list" | NdArray "real list" | PyFloat real

text \<open>
  A numpy value is a scalar or a one-dimensional array. Addition broadcasts a scalar over
  an array, so the scalar zero, with which Python's \<open>sum\<close> and \<open>np.sum\<close> of an empty list
  start, is neutral. Arrays that are added have the same shape in every run (one entry per
  point of the time grid); addition of two arrays is written with \<open>map2\<close>.
\<close>

datatype ndarray = Scalar real | Array "real list"

instantiation ndarray :: comm_monoid_add
begin

definition zero_ndarray :: ndarray where
  "zero_ndarray = Scalar 0"

fun plus_ndarray :: "ndarray \<Rightarrow> ndarray \<Rightarrow> ndarray" where
  "plus_ndarray (Scalar a) (Scalar b) = Scalar (a + b)"
| "plus_ndarray (Scalar a) (Array ys) = Array (map (\<lambda>y. a + y) ys)"
| "plus_ndarray (Array xs) (Scalar b) = Array (map (\<lambda>x. x + b) xs)"
| "plus_ndarray (Array xs) (Array ys) = Array (map2 (+) xs ys)"

instance
proof
  fix a b c :: ndarray
  have m: "map2 (+) (map2 (+) xs ys) zs = map2 (+) xs (map2 (+) ys zs)"
    for xs ys zs :: "real list"
  proof (induction xs arbitrary: ys zs)
    case Nil
    show ?case by simp
  next
    case (Cons x xs)
    show ?case by (cases ys; cases zs) (simp_all add: Cons.IH)
  qed
  have l: "map2 (+) (map (\<lambda>y. r + y) ys) zs = map (\<lambda>y. r + y) (map2 (+) ys zs)"
    for r :: real and ys zs
    by (induction ys arbitrary: zs) (case_tac zs, simp_all)+
  have r: "map2 (+) xs (map (\<lambda>y. y + r) ys) = map (\<lambda>y. y + r) (map2 (+) xs ys)"
    for r :: real and xs ys
    by (induction xs arbitrary: ys) (case_tac ys, simp_all)+
  have mid: "map2 (+) (map (\<lambda>y. y + r) xs) zs = map2 (+) xs (map (\<lambda>y. r + y) zs)"
    for r :: real and xs zs
    by (induction xs arbitrary: zs) (case_tac zs, simp_all)+
  show "a + b + c = a + (b + c)"
    by (cases a; cases b; cases c) (simp_all add: m l r mid add.assoc)
  have c2: "map2 (+) xs ys = map2 (+) ys xs" for xs ys :: "real list"
    by (induction xs arbitrary: ys) (case_tac ys, simp_all)+
  show "a + b = b + a"
    by (cases a; cases b) (simp_all add: add.commute c2)
  show "0 + a = a"
    by (cases a) (auto simp: zero_ndarray_def intro: map_idI)
qed

end

text \<open>Division of an array by a number, \<open>np.square\<close> and \<open>np.sqrt\<close>, all elementwise.\<close>

fun nd_map :: "(real \<Rightarrow> real) \<Rightarrow> ndarray \<Rightarrow> ndarray" where
  "nd_map f (Scalar a) = Scalar (f a)"
| "nd_map f (Array xs) = Array (map f xs)"

definition nd_div :: "ndarray \<Rightarrow> real \<Rightarrow> ndarray" where
  "nd_div a d = nd_map (\<lambda>x. x / d) a"

definition np_square :: "ndarray \<Rightarrow> ndarray" where
  "np_square a = nd_map (\<lambda>x. x * x) a"

definition np_sqrt :: "ndarray \<Rightarrow> ndarray" where
  "np_sqrt a = nd_map sqrt a"

section \<open>Double precision\<close>

text \<open>
  Python floats and numpy's \<open>float64\<close> are IEEE doubles. A double is modelled as the real it
  denotes, and every arithmetic operation of the source on floats as the exact operation
  followed by rounding to the nearest double, with a significand of 53 bits and ties to
  even. The exponent is not bounded: overflow, subnormal numbers, infinities and NaN are
  outside the model.
\<close>

definition pow2 :: "int \<Rightarrow> real" where
  "pow2 e = (if 0 \<le> e then 2 ^ nat e else 1 / 2 ^ nat (- e))"

text \<open>Rounding of a real to the nearest integer, a tie going to the even one.\<close>

definition round_even :: "real \<Rightarrow> int" where
  "round_even y =
     (let f = \<lfloor>y\<rfloor>
      in if y - of_int f < 1 / 2 then f
         else if 1 / 2 < y - of_int f then f + 1
         else if even f then f else f + 1)"

text \<open>
  The binary exponent of a positive real \<open>x\<close>: the integer \<open>e\<close> with
  \<open>2 ^ e \<le> x < 2 ^ (e + 1)\<close>, found by halving or doubling.
\<close>

function expo :: "real \<Rightarrow> int" where
  "expo x =
     (if x \<le> 0 then 0
      else if 2 \<le> x then expo (x / 2) + 1
      else if x < 1 then expo (2 * x) - 1
      else 0)"
  by pat_completeness auto
termination
proof (relation "measure (\<lambda>x. if 1 \<le> x then nat \<lfloor>x\<rfloor> else nat \<lceil>1 / x\<rceil> + 1)")
  show "wf (measure (\<lambda>x::real. if 1 \<le> x then nat \<lfloor>x\<rfloor> else nat \<lceil>1 / x\<rceil> + 1))"
    by simp
next
  fix x :: real
  assume "\<not> x \<le> 0" "2 \<le> x"
  then have "\<lfloor>x / 2\<rfloor> < \<lfloor>x\<rfloor>" "1 \<le> x / 2" "0 < \<lfloor>x\<rfloor>" by linarith+
  then show "(x / 2, x) \<in> measure (\<lambda>x. if 1 \<le> x then nat \<lfloor>x\<rfloor> else nat \<lceil>1 / x\<rceil> + 1)"
    using \<open>2 \<le> x\<close> by simp
next
  fix x :: real
  assume x: "\<not> x \<le> 0" "\<not> 2 \<le> x" "x < 1"
  then have y: "1 < 1 / x" by simp
  show "(2 * x, x) \<in> measure (\<lambda>x. if 1 \<le> x then nat \<lfloor>x\<rfloor> else nat \<lceil>1 / x\<rceil> + 1)"
  proof (cases "1 \<le> 2 * x")
    case True
    then have "\<lfloor>2 * x\<rfloor> = 1" using x by linarith
    moreover have "2 \<le> \<lceil>1 / x\<rceil>" using y by linarith
    ultimately show ?thesis using True x by simp
  next
    case False
    then have "2 < 1 / x" using x by (simp add: field_simps)
    then have "1 / x / 2 \<le> 1 / x - 1" by simp
    moreover have h: "1 / (2 * x) = 1 / x / 2" by simp
    ultimately have "1 / (2 * x) \<le> 1 / x - 1" by (simp only:)
    then have "\<lceil>1 / (2 * x)\<rceil> \<le> \<lceil>1 / x - 1\<rceil>" by (rule ceiling_mono)
    then have c: "\<lceil>1 / (2 * x)\<rceil> < \<lceil>1 / x\<rceil>" by simp
    have p: "0 < \<lceil>1 / x\<rceil>" using y by linarith
    have "nat \<lceil>1 / (2 * x)\<rceil> < nat \<lceil>1 / x\<rceil>" using c p by linarith
    then show ?thesis using False x by (simp only: in_measure if_False not_le) simp
  qed
qed

declare expo.simps [simp del]

text \<open>
  Rounding to the nearest double: the real is scaled by the power of two that puts its
  significand between \<open>2 ^ 52\<close> and \<open>2 ^ 53\<close>, rounded to an integer with ties to the even
  one, and scaled back.
\<close>

definition fl :: "real \<Rightarrow> real" where
  "fl x =
     (if x = 0 then 0
      else of_int (round_even (x / pow2 (expo \<bar>x\<bar> - 52))) * pow2 (expo \<bar>x\<bar> - 52))"

text \<open>The reals that are doubles are those that rounding leaves as they are.\<close>

definition is_double :: "real \<Rightarrow> bool" where
  "is_double x \<longleftrightarrow> fl x = x"

section \<open>The time grid (lines 125 to 135)\<close>

text \<open>
  \<open>np.arange(start, stop, step)\<close> on floats: the length is the ceiling of the double
  quotient \<open>(stop - start) / step\<close>, none when that is negative, and the division raises
  for a zero step. The first entry is \<open>start\<close>, the second the double \<open>start + step\<close>, and
  numpy fills the rest as \<open>start + i * delta\<close> in double arithmetic, where \<open>delta\<close> is the
  second entry minus the first.
\<close>

definition arange_length :: "real \<Rightarrow> real \<Rightarrow> real \<Rightarrow> nat" where
  "arange_length start stop step = nat \<lceil>fl (fl (stop - start) / step)\<rceil>"

definition arange_fill :: "real \<Rightarrow> real \<Rightarrow> nat \<Rightarrow> real" where
  "arange_fill start step i =
     (if i = 0 then start
      else if i = 1 then fl (start + step)
      else fl (start + fl (real i * fl (fl (start + step) - start))))"

definition np_arange :: "real \<Rightarrow> real \<Rightarrow> real \<Rightarrow> py_error + real list" where
  "np_arange start stop step =
     (if step = 0 then Inl ZeroDivisionError
      else Inr (map (arange_fill start step) [0..<arange_length start stop step]))"

fun is_tuple :: "time_info \<Rightarrow> bool" where
  "is_tuple (PyTuple xs) = True"
| "is_tuple ti = False"

fun is_list :: "time_info \<Rightarrow> bool" where
  "is_list (PyList xs) = True"
| "is_list ti = False"

text \<open>
  The second test of the source reads \<open>type(time_info) is list or np.ndarray\<close>. Python
  parses it as \<open>(type(time_info) is list) or np.ndarray\<close>, and its right operand is the
  class object \<open>numpy.ndarray\<close>, whose truth value is \<open>True\<close>.
\<close>

definition np_ndarray_truth :: bool where
  "np_ndarray_truth = True"

datatype printed = Line string | RunParameters | Table time_info ndarray

text \<open>
  The block returns what it prints and either the error that ends the process or
  \<open>t_output\<close>. Unpacking a tuple that has not three entries raises \<open>ValueError\<close>; the
  division of two Python floats raises \<open>ZeroDivisionError\<close> for a zero divisor;
  \<open>exit(0)\<close> raises \<open>SystemExit\<close> with status 0.
\<close>

definition time_grid :: "nat \<Rightarrow> nat \<Rightarrow> time_info \<Rightarrow> printed list \<times> (py_error + time_info)" where
  "time_grid rt rank ti =
     (if is_tuple ti then
        (case ti of
           PyTuple [t_init, t_final, n_steps] \<Rightarrow>
             if fl (n_steps - 1) = 0 then ([], Inl ZeroDivisionError)
             else ([], map_sum id NdArray
                         (np_arange t_init t_final
                            (fl (fl (t_final - t_init) / fl (n_steps - 1)))))
         | _ \<Rightarrow> ([], Inl ValueError))
      else if is_list ti \<or> np_ndarray_truth then ([], Inr ti)
      else if rank = rt then
        ([Line ''Please enter either a tuple or a list for the time interval''],
         Inl (SystemExit 0))
      else ([], Inl (SystemExit 0)))"

section \<open>Round-robin counts and the scatter of seeds (lines 137 to 160)\<close>

text \<open>
  The counting loop. It stops for every positive group size; for a group size of zero
  and a start below \<open>n_t\<close> it would not, so it is a partial function.
\<close>

partial_function (option) nt_loc_loop :: "int \<Rightarrow> nat \<Rightarrow> int \<Rightarrow> nat \<Rightarrow> nat option" where
  "nt_loc_loop n_t csize iterator nt_loc =
     (if iterator < n_t then nt_loc_loop n_t csize (iterator + int csize) (nt_loc + 1)
      else Some nt_loc)"

declare nt_loc_loop.simps [code]

definition round_robin :: "int \<Rightarrow> nat \<Rightarrow> nat \<Rightarrow> nat option" where
  "round_robin n_t csize rank = nt_loc_loop n_t csize (int rank) 0"

text \<open>\<open>comm.gather\<close>: the counts of all ranks, in rank order, once every rank has one.\<close>

definition gather_ntlocs :: "int \<Rightarrow> nat \<Rightarrow> nat list option" where
  "gather_ntlocs n_t csize = those (map (round_robin n_t csize) [0..<csize])"

text \<open>\<open>np.arange(n_t, dtype=np.int64) + 1\<close>, for counts below \<open>2 ^ 63\<close>.\<close>

definition all_seeds :: "int \<Rightarrow> int list" where
  "all_seeds n_t = map (\<lambda>i. i + 1) [0..n_t - 1]"

fun cumsum_from :: "nat \<Rightarrow> nat list \<Rightarrow> nat list" where
  "cumsum_from acc [] = []"
| "cumsum_from acc (x # xs) = (acc + x) # cumsum_from (acc + x) xs"

definition np_cumsum :: "nat list \<Rightarrow> nat list" where
  "np_cumsum xs = cumsum_from 0 xs"

text \<open>\<open>np.roll(a, k)\<close> moves the entry at index \<open>i\<close> to index \<open>(i + k) mod len(a)\<close>.\<close>

definition np_roll :: "'a list \<Rightarrow> nat \<Rightarrow> 'a list" where
  "np_roll xs k =
     (if xs = [] then []
      else drop (length xs - k mod length xs) xs @ take (length xs - k mod length xs) xs)"

definition all_displacements :: "nat \<Rightarrow> nat list \<Rightarrow> nat list" where
  "all_displacements rt all_ntlocs = (np_roll (np_cumsum all_ntlocs) (rt + 1))[rt := 0]"

text \<open>
  \<open>comm.Scatterv\<close>: rank \<open>r\<close> receives \<open>counts[r]\<close> entries of the send buffer from index
  \<open>displs[r]\<close> on into its receive buffer. The entries are moved as 8-byte items and arrive
  unchanged. A block that leaves the send buffer is cut at its end here (MPI leaves that
  case undefined).
\<close>

definition scatterv :: "int list \<Rightarrow> nat list \<Rightarrow> nat list \<Rightarrow> nat \<Rightarrow> int list \<Rightarrow> int list" where
  "scatterv sendbuf counts displs r recvbuf =
     (let got = take (counts ! r) (drop (displs ! r) sendbuf)
      in take (length recvbuf) got @ drop (length got) recvbuf)"

definition local_seeds :: "nat \<Rightarrow> int \<Rightarrow> nat \<Rightarrow> nat \<Rightarrow> int list option" where
  "local_seeds rt n_t csize r =
     (case round_robin n_t csize r of
        None \<Rightarrow> None
      | Some nt_loc \<Rightarrow>
          (case gather_ntlocs n_t csize of
             None \<Rightarrow> None
           | Some all_ntlocs \<Rightarrow>
               Some (scatterv (all_seeds n_t) all_ntlocs (all_displacements rt all_ntlocs) r
                       (replicate nt_loc 0))))"

section \<open>The trajectory loop (lines 162 to 193)\<close>

text \<open>
  The state array of a trajectory carries its dtype: \<open>odeint\<close> returns double precision,
  and \<open>np.array(s, dtype="float128")\<close> copies the entries into the wider type.
\<close>

datatype dtype = Float64 | Float128

datatype states = States (dtype_of: dtype) (entries: "real list list")

definition np_array :: "states \<Rightarrow> dtype \<Rightarrow> states" where
  "np_array s d = States d (entries s)"

text \<open>
  Modelled from the spec: the class \<open>OutData\<close> of the module \<open>classes\<close>, which is not among
  the sources. It holds the time grid, three single-site channels and six correlation-sum
  channels, each with one entry per time point.
\<close>

record outdata =
  t_out :: time_info
  sx :: ndarray
  sy :: ndarray
  sz :: ndarray
  sxvar :: ndarray
  syvar :: ndarray
  szvar :: ndarray
  sxyvar :: ndarray
  sxzvar :: ndarray
  syzvar :: ndarray

text \<open>
  The collaborators that the driver calls and does not define: the sampler, the
  integrator \<open>odeint\<close> (applied to the right-hand side \<open>lorenzo_bbgky_pywrap\<close> and the system
  itself), the Weyl symbol of the Hamiltonian with its time derivative, the observables,
  and the site-count factor of the correlation channels used by the normalisation.
\<close>

record ext =
  sample :: "string \<Rightarrow> int \<Rightarrow> real list \<times> real list"
  odeint :: "real list \<Rightarrow> time_info \<Rightarrow> real list list"
  weyl_hamilt :: "states \<Rightarrow> time_info \<Rightarrow> ndarray list"
  t_deriv :: "ndarray \<Rightarrow> time_info \<Rightarrow> ndarray"
  bbgky_observables :: "time_info \<Rightarrow> states \<Rightarrow> outdata"
  corr_factor :: "nat \<Rightarrow> real"

record config =
  n_t :: int
  seed_offset :: int
  verbose :: bool
  latsize :: nat
  root_rank :: nat

record comm =
  comm_rank :: nat
  comm_size :: nat

text \<open>
  One pass of the loop body for the seed at index \<open>runcount\<close>: sample, integrate, in
  verbose mode append the squared time derivatives, widen the states, compute the
  observables and append them.
\<close>

definition integrate :: "ext \<Rightarrow> config \<Rightarrow> string \<Rightarrow> time_info \<Rightarrow> int \<Rightarrow> states" where
  "integrate E cfg sampling t_output seed =
     (let (s_init_spins, s_init_corrs) = sample E sampling (seed + seed_offset cfg);
          init_s = s_init_spins @ s_init_corrs
      in States Float64 (odeint E init_s t_output))"

definition loop_body ::
  "ext \<Rightarrow> config \<Rightarrow> string \<Rightarrow> time_info \<Rightarrow> int list \<Rightarrow>
   outdata list \<times> ndarray list \<Rightarrow> nat \<Rightarrow> outdata list \<times> ndarray list" where
  "loop_body E cfg sampling t_output seeds acc runcount =
     (let (list_of_local_data, list_of_dhwdt_abs2) = acc;
          s = integrate E cfg sampling t_output (seeds ! runcount);
          list_of_dhwdt_abs2' =
            (if verbose cfg then
               (let hws = weyl_hamilt E s t_output;
                    dhwdt = map (\<lambda>hw. t_deriv E hw t_output) hws;
                    dhwdt_abs2 = map np_square dhwdt
                in list_of_dhwdt_abs2 @ dhwdt_abs2)
             else list_of_dhwdt_abs2);
          s' = np_array s Float128;
          localdata = bbgky_observables E t_output s'
      in (list_of_local_data @ [localdata], list_of_dhwdt_abs2'))"

definition trajectory_loop ::
  "ext \<Rightarrow> config \<Rightarrow> string \<Rightarrow> time_info \<Rightarrow> int list \<Rightarrow> nat \<Rightarrow>
   outdata list \<times> ndarray list" where
  "trajectory_loop E cfg sampling t_output seeds nt_loc =
     foldl (loop_body E cfg sampling t_output seeds) ([], []) [0..<nt_loc]"

text \<open>What the process of rank \<open>r\<close> holds when it reaches the reductions.\<close>

definition local_work ::
  "ext \<Rightarrow> config \<Rightarrow> nat \<Rightarrow> string \<Rightarrow> time_info \<Rightarrow> nat \<Rightarrow>
   (outdata list \<times> ndarray list) option" where
  "local_work E cfg P sampling t_output r =
     (case round_robin (n_t cfg) P r of
        None \<Rightarrow> None
      | Some nt_loc \<Rightarrow>
          (case local_seeds (root_rank cfg) (n_t cfg) P r of
             None \<Rightarrow> None
           | Some seeds \<Rightarrow> Some (trajectory_loop E cfg sampling t_output seeds nt_loc)))"

section \<open>Reduction and normalisation (lines 195 to 222)\<close>

text \<open>
  Modelled from the spec: \<open>sum_reduce_all_data\<close> of the module \<open>funcs\<close>, which is not among
  the sources. Every worker sums its local contributions per channel, and one global
  sum-reduction combines the workers' sums on the coordinating process; the other
  processes get nothing.
\<close>

definition channel_total :: "outdata list list \<Rightarrow> (outdata \<Rightarrow> ndarray) \<Rightarrow> ndarray" where
  "channel_total all_local ch = sum_list (map (\<lambda>datalist. sum_list (map ch datalist)) all_local)"

definition channel_totals :: "outdata list list \<Rightarrow> time_info \<Rightarrow> outdata" where
  "channel_totals all_local t_output =
     \<lparr>t_out = t_output,
      sx = channel_total all_local sx,
      sy = channel_total all_local sy,
      sz = channel_total all_local sz,
      sxvar = channel_total all_local sxvar,
      syvar = channel_total all_local syvar,
      szvar = channel_total all_local szvar,
      sxyvar = channel_total all_local sxyvar,
      sxzvar = channel_total all_local sxzvar,
      syzvar = channel_total all_local syzvar\<rparr>"

definition sum_reduce_all_data ::
  "nat \<Rightarrow> nat \<Rightarrow> outdata list list \<Rightarrow> time_info \<Rightarrow> outdata option" where
  "sum_reduce_all_data rt rank all_local t_output =
     (if rank = rt then Some (channel_totals all_local t_output) else None)"

text \<open>
  Modelled from the spec: \<open>OutData.normalize_data\<close> of the module \<open>classes\<close>, which is not
  among the sources. Every summed channel is divided by the number of trajectories, the
  correlation channels by the site-count factor as well.
\<close>

definition normalize_data :: "(nat \<Rightarrow> real) \<Rightarrow> int \<Rightarrow> nat \<Rightarrow> outdata \<Rightarrow> outdata" where
  "normalize_data cf w_totals lsize d =
     d\<lparr>sx := nd_div (sx d) (real_of_int w_totals),
       sy := nd_div (sy d) (real_of_int w_totals),
       sz := nd_div (sz d) (real_of_int w_totals),
       sxvar := nd_div (sxvar d) (real_of_int w_totals * cf lsize),
       syvar := nd_div (syvar d) (real_of_int w_totals * cf lsize),
       szvar := nd_div (szvar d) (real_of_int w_totals * cf lsize),
       sxyvar := nd_div (sxyvar d) (real_of_int w_totals * cf lsize),
       sxzvar := nd_div (sxzvar d) (real_of_int w_totals * cf lsize),
       syzvar := nd_div (syzvar d) (real_of_int w_totals * cf lsize)\<rparr>"

text \<open>
  Modelled from the spec: \<open>Intracomm.reduce\<close> of the module \<open>reductions\<close>, which is not among
  the sources. It is the global sum-reduction: the sum of the values of all ranks on the
  coordinating process, nothing elsewhere.
\<close>

definition reduce :: "nat \<Rightarrow> nat \<Rightarrow> ndarray list \<Rightarrow> ndarray option" where
  "reduce rt rank values = (if rank = rt then Some (sum_list values) else None)"

section \<open>The driver\<close>

text \<open>
  The collective and mutating calls of a process, in the order it makes them, what it
  prints, and how it ends: with an error, with \<open>return None\<close> or with the dataset. The
  diagnostic \<open>dhwdt_abs_totals\<close>, a local variable that is only printed, is kept as well.
\<close>

datatype event = Gather | Scatterv | SumReduceAllData | Reduce | NormalizeData

record behaviour =
  stdout :: "printed list"
  calls :: "event list"
  dhwdt_abs_totals :: "ndarray option"
  final :: "py_error + outdata option"

definition header :: "config \<Rightarrow> comm \<Rightarrow> printed list" where
  "header cfg c =
     (if comm_rank c = root_rank cfg \<and> verbose cfg then [Line ''# Run parameters:'', RunParameters]
      else []) @
     (if comm_rank c = root_rank cfg \<and> \<not> verbose cfg then [Line ''# Starting run ...''] else [])"

definition stopped :: "printed list \<Rightarrow> event list \<Rightarrow> py_error \<Rightarrow> behaviour" where
  "stopped out evs e = \<lparr>stdout = out, calls = evs, dhwdt_abs_totals = None, final = Inl e\<rparr>"

definition dtwa_bbgky :: "ext \<Rightarrow> config \<Rightarrow> comm \<Rightarrow> time_info \<Rightarrow> string \<Rightarrow> behaviour" where
  "dtwa_bbgky E cfg c time_info sampling =
     (let N = latsize cfg; rt = root_rank cfg in
      case time_grid rt (comm_rank c) time_info of
        (msgs, Inl e) \<Rightarrow> stopped (header cfg c @ msgs) [] e
      | (msgs, Inr t_output) \<Rightarrow>
     (case round_robin (n_t cfg) (comm_size c) (comm_rank c) of
        None \<Rightarrow> stopped (header cfg c @ msgs) [] Diverges
      | Some nt_loc \<Rightarrow>
     (if \<not> rt < comm_size c then stopped (header cfg c @ msgs) [Gather] MPIError
      else
     (case those (map (local_work E cfg (comm_size c) sampling t_output) [0..<comm_size c]) of
        None \<Rightarrow> stopped (header cfg c @ msgs) [Gather] Diverges
      | Some work \<Rightarrow>
     (let outdat = sum_reduce_all_data rt (comm_rank c) (map fst work) t_output;
          dhwdt_abs2_totals =
            (if verbose cfg then reduce rt (comm_rank c) (map (\<lambda>w. sum_list (snd w)) work)
             else None);
          diag =
            (if verbose cfg \<and> comm_rank c = rt then
               map_option (\<lambda>tot. np_sqrt (nd_div tot (real_of_int (n_t cfg) * real N * real N)))
                 dhwdt_abs2_totals
             else None);
          evs = [Gather, Scatterv, SumReduceAllData] @ (if verbose cfg then [Reduce] else [])
      in
      if comm_rank c = rt then
        (case outdat of
           None \<Rightarrow> stopped (header cfg c @ msgs) evs AttributeError
         | Some d \<Rightarrow>
             \<lparr>stdout = header cfg c @ msgs @
                (if verbose cfg then
                   [Line ''t-deriv of Hamilt (abs square) with wigner avg: '', Line ''  ''] @
                   (case diag of None \<Rightarrow> [] | Some v \<Rightarrow> [Table t_output v])
                 else []) @
                [Line ''# Done!''],
              calls = evs @ [NormalizeData],
              dhwdt_abs_totals = diag,
              final = Inr (Some (normalize_data (corr_factor E) (n_t cfg) N d))\<rparr>)
      else
        \<lparr>stdout = header cfg c @ msgs, calls = evs, dhwdt_abs_totals = None,
         final = Inr None\<rparr>)))))"

section \<open>Notions used to state the claims\<close>

text \<open>
  The contribution of one seed: the observables of its widened trajectory, and the rows
  of squared time derivatives that verbose mode collects for it.
\<close>

definition observed :: "ext \<Rightarrow> config \<Rightarrow> string \<Rightarrow> time_info \<Rightarrow> int \<Rightarrow> outdata" where
  "observed E cfg sampling t_output seed =
     bbgky_observables E t_output (np_array (integrate E cfg sampling t_output seed) Float128)"

definition dhwdt_abs2_of :: "ext \<Rightarrow> config \<Rightarrow> string \<Rightarrow> time_info \<Rightarrow> int \<Rightarrow> ndarray list" where
  "dhwdt_abs2_of E cfg sampling t_output seed =
     map np_square
       (map (\<lambda>hw. t_deriv E hw t_output)
          (weyl_hamilt E (integrate E cfg sampling t_output seed) t_output))"

text \<open>
  The serial reference of the spec: all \<open>n_t\<close> trajectories, with the seeds \<open>1, ..., n_t\<close>, summed
  in one list outside any partitioning and normalised once.
\<close>

definition serial_dataset :: "ext \<Rightarrow> config \<Rightarrow> string \<Rightarrow> time_info \<Rightarrow> outdata" where
  "serial_dataset E cfg sampling t_output =
     normalize_data (corr_factor E) (n_t cfg) (latsize cfg)
       (channel_totals [map (observed E cfg sampling t_output) [1..n_t cfg]] t_output)"

text \<open>Small collaborators and configurations on which the theorems are instantiated.\<close>

definition example_ext :: ext where
  "example_ext =
     \<lparr>sample = (\<lambda>scheme seed. ([real_of_int seed], [1])),
      odeint = (\<lambda>init_s t. [init_s]),
      weyl_hamilt = (\<lambda>s t. map Array (entries s)),
      t_deriv = (\<lambda>hw t. Array [2, 4]),
      bbgky_observables =
        (\<lambda>t s. \<lparr>t_out = t, sx = Array (concat (entries s)), sy = Scalar 1, sz = Scalar 0,
                sxvar = Scalar 2, syvar = Scalar 0, szvar = Scalar 0, sxyvar = Scalar 0,
                sxzvar = Scalar 0, syzvar = Scalar 0\<rparr>),
      corr_factor = (\<lambda>N. real N)\<rparr>"

definition example_config :: "bool \<Rightarrow> config" where
  "example_config v = \<lparr>n_t = 8, seed_offset = 0, verbose = v, latsize = 2, root_rank = 0\<rparr>"

section \<open>Round-robin counts: closed form\<close>

lemma nt_loc_loop_closed:
  assumes "0 < P"
  shows "nt_loc_loop n P it acc =
     Some (acc + (if it < n then nat ((n - it + int P - 1) div int P) else 0))"
  using assms
proof (induction "nat (n - it)" arbitrary: it acc rule: less_induct)
  case less
  show ?case
  proof (cases "it < n")
    case False
    then show ?thesis by (subst nt_loc_loop.simps) simp
  next
    case True
    have m: "nat (n - (it + int P)) < nat (n - it)" using True less.prems by linarith
    have ih: "nt_loc_loop n P (it + int P) (acc + 1) =
      Some (acc + 1 + (if it + int P < n then nat ((n - (it + int P) + int P - 1) div int P) else 0))"
      using less.hyps[OF m less.prems] .
    have a: "(n - it + int P - 1) div int P = (n - it - 1) div int P + 1"
    proof -
      have e: "n - it + int P - 1 = (n - it - 1) + int P" by simp
      show ?thesis unfolding e using less.prems by (subst div_add_self2) auto
    qed
    have nn: "0 \<le> (n - it - 1) div int P" using True less.prems
      by (simp add: pos_imp_zdiv_nonneg_iff)
    show ?thesis
      apply (subst nt_loc_loop.simps)
      using True ih a less.prems nn
      by (auto simp: nat_add_distrib)
  qed
qed

lemma round_robin_closed:
  assumes "0 < P" "r < P"
  shows "round_robin (int m) P r = Some ((m + (P - 1 - r)) div P)"
proof -
  have "int ((m + (P - 1 - r)) div P) = (int m - int r + int P - 1) div int P"
    using assms by (simp add: zdiv_int of_nat_diff algebra_simps)
  then have e: "nat ((int m - int r + int P - 1) div int P) = (m + (P - 1 - r)) div P"
    by (metis nat_int)
  have z: "\<not> r < m \<Longrightarrow> (m + (P - 1 - r)) div P = 0"
    using assms by simp
  show ?thesis
    unfolding round_robin_def nt_loc_loop_closed[OF assms(1)]
    using e z by auto
qed

lemma count_mod_step:
  assumes "0 < P" "r < P"
  shows "(Suc m + (P - 1 - r)) div P = (m + (P - 1 - r)) div P + (if m mod P = r then 1 else 0)"
proof -
  define q where "q = m mod P"
  have e: "Suc (m + (P - 1 - r)) = m + (P - r)" using assms by simp
  have q: "q < P" using assms by (simp add: q_def)
  have "(m + (P - r)) mod P = (q + (P - r)) mod P"
    by (simp add: q_def mod_simps)
  also have "\<dots> = 0 \<longleftrightarrow> q = r"
  proof (cases "r \<le> q")
    case True
    then have "q + (P - r) = (q - r) + P" using assms by simp
    then have "(q + (P - r)) mod P = (q - r) mod P" by simp
    also have "\<dots> = q - r" using q by simp
    finally show ?thesis using True by simp
  next
    case False
    then have "0 < q + (P - r)" "q + (P - r) < P" using assms by simp_all
    then show ?thesis using False assms by auto
  qed
  finally have "(Suc (m + (P - 1 - r))) mod P = 0 \<longleftrightarrow> m mod P = r"
    unfolding e q_def .
  then show ?thesis by (simp add: div_Suc)
qed

lemma round_robin_indices:
  assumes "0 < P" "r < P"
  shows "(m + (P - 1 - r)) div P = length (filter (\<lambda>i. i mod P = r) [0..<m])"
  using count_mod_step[OF assms] assms by (induction m) auto

lemma fibres_total:
  "0 < P \<Longrightarrow> (\<Sum>r\<leftarrow>[0..<P]. length (filter (\<lambda>i. i mod P = r) xs)) = length xs"
proof (induction xs)
  case Nil
  then show ?case by simp
next
  case (Cons x xs)
  have one: "(\<Sum>r\<leftarrow>[0..<P]. (if x mod P = r then 1 else 0)) = (1::nat)"
    using Cons.prems by (simp add: interv_sum_list_conv_sum_set_nat sum.delta')
  have "(\<Sum>r\<leftarrow>[0..<P]. length (filter (\<lambda>i. i mod P = r) (x # xs))) =
        (\<Sum>r\<leftarrow>[0..<P]. (if x mod P = r then 1 else 0) + length (filter (\<lambda>i. i mod P = r) xs))"
    by (rule arg_cong[where f=sum_list]) (rule map_cong, auto)
  then show ?case using Cons one
    by (simp add: sum_list_addf)
qed

section \<open>Round-robin counts: the claim\<close>

lemma those_map_Some:
  "(\<And>x. x \<in> set xs \<Longrightarrow> f x = Some (g x)) \<Longrightarrow> those (map f xs) = Some (map g xs)"
  by (induction xs) simp_all

lemma gather_ntlocs_closed:
  assumes "0 < P"
  shows "gather_ntlocs (int m) P = Some (map (\<lambda>r. (m + (P - 1 - r)) div P) [0..<P])"
  unfolding gather_ntlocs_def
  by (rule those_map_Some) (simp add: round_robin_closed assms)

lemma ntloc_bounds:
  fixes m P r :: nat
  assumes "0 < P" "r < P"
  shows "m div P \<le> (m + (P - 1 - r)) div P" "(m + (P - 1 - r)) div P \<le> m div P + 1"
proof -
  have "m \<le> m + (P - 1 - r)" by simp
  then show "m div P \<le> (m + (P - 1 - r)) div P"
    by (rule div_le_mono)
  have "m + (P - 1 - r) \<le> m + P" by simp
  then have "(m + (P - 1 - r)) div P \<le> (m + P) div P"
    by (rule div_le_mono)
  then show "(m + (P - 1 - r)) div P \<le> m div P + 1"
    using assms by simp
qed

lemma ntloc_sum:
  assumes "0 < P"
  shows "sum_list (map (\<lambda>r. (m + (P - 1 - r)) div P) [0..<P]) = m"
proof -
  have e: "map (\<lambda>r. (m + (P - 1 - r)) div P) [0..<P] =
           map (\<lambda>r. length (filter (\<lambda>i. i mod P = r) [0..<m])) [0..<P]"
  proof (rule map_cong)
    fix r assume "r \<in> set [0..<P]"
    then have "r < P" by simp
    then show "(m + (P - 1 - r)) div P = length (filter (\<lambda>i. i mod P = r) [0..<m])"
      by (rule round_robin_indices[OF assms])
  qed simp
  show ?thesis unfolding e using fibres_total[OF assms, of "[0..<m]"] by simp
qed

text \<open>
  Claim C1. For every trajectory count \<open>n \<ge> 1\<close> and every number of workers \<open>P \<ge> 1\<close> the
  counting loop returns on every rank; the worker of rank \<open>r\<close> counts the indices below \<open>n\<close>
  that are congruent to \<open>r\<close> modulo \<open>P\<close>; the counts add up to \<open>n\<close>, and two of them differ
  by at most one. The counts are a function of \<open>n\<close> and \<open>P\<close> alone.
\<close>

theorem round_robin_counts:
  assumes "1 \<le> n" "1 \<le> P"
  shows "\<exists>ks. gather_ntlocs n P = Some ks \<and> length ks = P \<and>
     (\<forall>r<P. round_robin n P r = Some (ks ! r) \<and>
            ks ! r = length (filter (\<lambda>i. i mod P = r) [0..<nat n])) \<and>
     int (sum_list ks) = n \<and>
     (\<forall>r<P. \<forall>r'<P. ks ! r \<le> ks ! r' + 1)"
proof -
  define m where "m = nat n"
  have n: "n = int m" using assms by (simp add: m_def)
  have P: "0 < P" using assms by simp
  define ks where "ks = map (\<lambda>r. (m + (P - 1 - r)) div P) [0..<P]"
  have nth: "ks ! r = (m + (P - 1 - r)) div P" if "r < P" for r
    using that by (simp add: ks_def)
  have "gather_ntlocs n P = Some ks" unfolding n ks_def by (rule gather_ntlocs_closed[OF P])
  moreover have "length ks = P" by (simp add: ks_def)
  moreover have "round_robin n P r = Some (ks ! r) \<and>
       ks ! r = length (filter (\<lambda>i. i mod P = r) [0..<nat n])" if "r < P" for r
  proof -
    have "(m + (P - 1 - r)) div P = length (filter (\<lambda>i. i mod P = r) [0..<m])"
      by (rule round_robin_indices[OF P that])
    moreover have "round_robin n P r = Some ((m + (P - 1 - r)) div P)"
      unfolding n by (rule round_robin_closed[OF P that])
    ultimately show ?thesis unfolding nth[OF that] by (simp add: m_def)
  qed
  moreover have "int (sum_list ks) = n" unfolding ks_def ntloc_sum[OF P] n ..
  moreover have "ks ! r \<le> ks ! r' + 1" if "r < P" "r' < P" for r r'
    unfolding nth[OF that(1)] nth[OF that(2)]
    using ntloc_bounds[OF P that(1), of m] ntloc_bounds[OF P that(2), of m] by linarith
  ultimately show ?thesis by blast
qed

text \<open>Eight trajectories on three workers: the counts are 3, 3 and 2.\<close>

theorem round_robin_counts_witness:
  "gather_ntlocs 8 3 = Some [3, 3, 2] \<and> map (round_robin 8 3) [0..<3] = [Some 3, Some 3, Some 2] \<and>
   int (sum_list [3, 3, 2]) = 8 \<and> [3, 3, 2::nat] ! 0 \<le> [3, 3, 2] ! 2 + 1"
proof -
  obtain ks where ks: "gather_ntlocs 8 3 = Some ks"
      "int (sum_list ks) = 8" "ks ! 0 \<le> ks ! 2 + 1"
    using round_robin_counts[of 8 3] by auto
  have g: "gather_ntlocs 8 3 = Some [3, 3, 2]" by code_simp
  have m: "map (round_robin 8 3) [0..<3] = [Some 3, Some 3, Some 2]" by code_simp
  from ks g have "ks = [3, 3, 2]" by simp
  with ks g m show ?thesis by simp
qed

section \<open>The scatter of seeds\<close>

lemma upto_as_upt: "[0..int m - 1] = map int [0..<m]"
proof (induction m)
  case 0
  show ?case by simp
next
  case (Suc m)
  have "[0..int (Suc m) - 1] = [0..int m - 1] @ [int m]"
    using upto_rec2[of 0 "int m"] by simp
  then show ?case using Suc by simp
qed

lemma all_seeds_upto: "all_seeds n = [1..n]"
proof (cases "0 \<le> n")
  case False
  then show ?thesis by (simp add: all_seeds_def)
next
  case True
  define m where "m = nat n"
  have n: "n = int m" using True by (simp add: m_def)
  have "[1..int m] = map (\<lambda>i. i + 1) [0..int m - 1]"
  proof (induction m)
    case 0
    show ?case by simp
  next
    case (Suc m)
    have a: "[1..int (Suc m)] = [1..int m] @ [int m + 1]"
      using upto_rec2[of 1 "int m + 1"] by (simp add: add.commute)
    have b: "[0..int (Suc m) - 1] = [0..int m - 1] @ [int m]"
      using upto_rec2[of 0 "int m"] by simp
    show ?case unfolding a b using Suc by simp
  qed
  then show ?thesis by (simp add: all_seeds_def n)
qed

lemma length_all_seeds: "length (all_seeds (int m)) = m"
  by (simp add: all_seeds_upto)

lemma cumsum_from_nth:
  "i < length xs \<Longrightarrow> cumsum_from acc xs ! i = acc + sum_list (take (Suc i) xs)"
proof (induction xs arbitrary: acc i)
  case Nil
  then show ?case by simp
next
  case (Cons x xs)
  show ?case
  proof (cases i)
    case 0
    then show ?thesis by simp
  next
    case (Suc j)
    then show ?thesis using Cons.prems Cons.IH[of j "acc + x"] by simp
  qed
qed

lemma length_cumsum_from: "length (cumsum_from acc xs) = length xs"
  by (induction xs arbitrary: acc) simp_all

lemma np_roll_one_nth:
  assumes "0 < r" "r < length xs"
  shows "np_roll xs 1 ! r = xs ! (r - 1)"
proof -
  have n: "1 < length xs" using assms by simp
  then have e: "np_roll xs 1 = drop (length xs - 1) xs @ take (length xs - 1) xs"
    by (auto simp: np_roll_def)
  have l: "length (drop (length xs - 1) xs) = 1" using n by simp
  show ?thesis unfolding e using assms l
    by (simp add: nth_append)
qed

lemma length_np_roll: "length (np_roll xs k) = length xs"
  by (simp add: np_roll_def)

lemma all_displacements_root0:
  assumes "r < length ks"
  shows "all_displacements 0 ks ! r = sum_list (take r ks)"
proof (cases r)
  case 0
  then show ?thesis using assms
    by (simp add: all_displacements_def length_np_roll np_cumsum_def length_cumsum_from)
next
  case (Suc j)
  have "all_displacements 0 ks ! r = np_roll (np_cumsum ks) 1 ! r"
    using Suc by (simp add: all_displacements_def)
  also have "\<dots> = np_cumsum ks ! j"
    using np_roll_one_nth[of r "np_cumsum ks"] assms Suc
    by (simp add: np_cumsum_def length_cumsum_from)
  also have "\<dots> = sum_list (take r ks)"
    using cumsum_from_nth[of j ks 0] assms Suc by (simp add: np_cumsum_def)
  finally show ?thesis .
qed

lemma blocks_concat:
  "concat (map (\<lambda>r. take (ks ! r) (drop (sum_list (take r ks)) xs)) [0..<length ks]) =
   take (sum_list ks) xs"
proof (induction ks rule: rev_induct)
  case Nil
  show ?case by simp
next
  case (snoc k ks)
  have e: "map (\<lambda>r. take ((ks @ [k]) ! r) (drop (sum_list (take r (ks @ [k]))) xs)) [0..<length ks] =
        map (\<lambda>r. take (ks ! r) (drop (sum_list (take r ks)) xs)) [0..<length ks]"
    by (rule map_cong) (simp_all add: nth_append)
  have "concat (map (\<lambda>r. take ((ks @ [k]) ! r) (drop (sum_list (take r (ks @ [k]))) xs))
          [0..<length (ks @ [k])]) =
        concat (map (\<lambda>r. take ((ks @ [k]) ! r) (drop (sum_list (take r (ks @ [k]))) xs))
          [0..<length ks]) @ take k (drop (sum_list ks) xs)"
    by simp
  also have "\<dots> = take (sum_list ks) xs @ take k (drop (sum_list ks) xs)"
    unfolding e snoc ..
  also have "\<dots> = take (sum_list (ks @ [k])) xs"
    by (simp add: take_add)
  finally show ?case .
qed

lemma block_within:
  fixes ks :: "nat list"
  assumes "r < length ks"
  shows "sum_list (take r ks) + ks ! r \<le> sum_list ks"
proof -
  have "sum_list (take (Suc r) ks) = sum_list (take r ks) + ks ! r"
    using assms by (simp add: take_Suc_conv_app_nth)
  moreover have "sum_list ks = sum_list (take (Suc r) ks) + sum_list (drop (Suc r) ks)"
    by (metis append_take_drop_id sum_list_append)
  ultimately show ?thesis by simp
qed

lemma scatterv_block:
  assumes "r < length ks" "sum_list ks = length xs"
  shows "scatterv xs ks (all_displacements 0 ks) r (replicate (ks ! r) 0) =
         take (ks ! r) (drop (sum_list (take r ks)) xs)"
proof -
  have "length (take (ks ! r) (drop (sum_list (take r ks)) xs)) = ks ! r"
    using block_within[OF assms(1)] assms(2) by simp
  then show ?thesis
    by (simp add: scatterv_def all_displacements_root0[OF assms(1)] Let_def)
qed

lemma local_seeds_root0:
  assumes "0 < P" "r < P" "0 \<le> n" "gather_ntlocs n P = Some ks"
  shows "local_seeds 0 n P r = Some (take (ks ! r) (drop (sum_list (take r ks)) (all_seeds n)))"
proof -
  define m where "m = nat n"
  have n: "n = int m" using assms by (simp add: m_def)
  have ks: "ks = map (\<lambda>r. (m + (P - 1 - r)) div P) [0..<P]"
    using assms(4) gather_ntlocs_closed[OF assms(1), of m] by (simp add: n)
  have len: "length ks = P" by (simp add: ks)
  have nth: "ks ! r = (m + (P - 1 - r)) div P" using assms(2) by (simp add: ks)
  have rr: "round_robin n P r = Some (ks ! r)"
    unfolding n nth by (rule round_robin_closed[OF assms(1,2)])
  have s: "sum_list ks = length (all_seeds n)"
    unfolding ks ntloc_sum[OF assms(1)] n length_all_seeds ..
  show ?thesis
    unfolding local_seeds_def rr assms(4)
    using scatterv_block[of r ks "all_seeds n"] s assms(2) len by simp
qed

text \<open>
  Claim C2. For \<open>n \<ge> 1\<close> trajectories, \<open>P \<ge> 1\<close> workers and the coordinating rank 0, the
  scatter hands the worker of rank \<open>r\<close> the slice of the seed array that starts where the
  slices of the lower ranks end and has as many entries as the worker counted. The slices,
  put one after the other, are the seed array \<open>[1..n]\<close>: every seed from 1 to \<open>n\<close> is
  received once, by one worker.
\<close>

theorem seeds_partition:
  assumes "1 \<le> n" "1 \<le> P"
  shows "\<exists>ks blocks. gather_ntlocs n P = Some ks \<and>
     those (map (local_seeds 0 n P) [0..<P]) = Some blocks \<and> length blocks = P \<and>
     (\<forall>r<P. length (blocks ! r) = ks ! r \<and>
            blocks ! r = take (ks ! r) (drop (sum_list (take r ks)) (all_seeds n))) \<and>
     concat blocks = all_seeds n \<and> all_seeds n = [1..n] \<and>
     mset (concat blocks) = mset [1..n] \<and> distinct (concat blocks) \<and>
     set (concat blocks) = {1..n}"
proof -
  define m where "m = nat n"
  have n: "n = int m" using assms by (simp add: m_def)
  have P: "0 < P" using assms by simp
  define ks where "ks = map (\<lambda>r. (m + (P - 1 - r)) div P) [0..<P]"
  have ks: "gather_ntlocs n P = Some ks" "length ks = P" "int (sum_list ks) = n"
    unfolding ks_def n using gather_ntlocs_closed[OF P, of m] ntloc_sum[OF P, of m] by simp_all
  define blocks where
    "blocks = map (\<lambda>r. take (ks ! r) (drop (sum_list (take r ks)) (all_seeds n))) [0..<P]"
  have th: "those (map (local_seeds 0 n P) [0..<P]) = Some blocks"
    unfolding blocks_def
    by (rule those_map_Some) (use P assms ks in \<open>simp add: local_seeds_root0\<close>)
  have s: "sum_list ks = length (all_seeds n)"
    using ks(3) by (simp add: n length_all_seeds)
  have c: "concat blocks = all_seeds n"
    using blocks_concat[of ks "all_seeds n"] s ks(2) by (simp add: blocks_def)
  have l: "length (blocks ! r) = ks ! r" if "r < P" for r
    using block_within[of r ks] that ks(2) s by (simp add: blocks_def)
  have "blocks ! r = take (ks ! r) (drop (sum_list (take r ks)) (all_seeds n))" if "r < P" for r
    using that by (simp add: blocks_def)
  with ks th c l have "gather_ntlocs n P = Some ks \<and>
     those (map (local_seeds 0 n P) [0..<P]) = Some blocks \<and> length blocks = P \<and>
     (\<forall>r<P. length (blocks ! r) = ks ! r \<and>
            blocks ! r = take (ks ! r) (drop (sum_list (take r ks)) (all_seeds n))) \<and>
     concat blocks = all_seeds n \<and> all_seeds n = [1..n] \<and>
     mset (concat blocks) = mset [1..n] \<and> distinct (concat blocks) \<and>
     set (concat blocks) = {1..n}"
    by (simp add: all_seeds_upto blocks_def)
  then show ?thesis by blast
qed

text \<open>Eight seeds on three workers.\<close>

theorem seeds_partition_witness:
  "those (map (local_seeds 0 8 3) [0..<3]) = Some [[1, 2, 3], [4, 5, 6], [7, 8]] \<and>
   mset (concat [[1, 2, 3], [4, 5, 6], [7, 8]]) = mset [1..8]"
proof -
  obtain ks blocks where b: "those (map (local_seeds 0 8 3) [0..<3]) = Some blocks"
      "mset (concat blocks) = mset [1..8]"
    using seeds_partition[of 8 3] by auto
  have "those (map (local_seeds 0 8 3) [0..<3]) = Some [[1, 2, 3], [4, 5, 6], [7, 8]]"
    by code_simp
  with b show ?thesis by simp
qed

section \<open>Double precision: the exponent and exact values\<close>

lemma pow2_add1: "pow2 (e + 1) = 2 * pow2 e"
proof (cases "0 \<le> e")
  case True
  then show ?thesis by (simp add: pow2_def nat_add_distrib)
next
  case False
  then have "nat (- e) = Suc (nat (- (e + 1)))" by simp
  then show ?thesis using False by (simp add: pow2_def)
qed

lemma expo_bounds: "0 < x \<Longrightarrow> pow2 (expo x) \<le> x \<and> x < pow2 (expo x + 1)"
proof (induction x rule: expo.induct)
  case (1 x)
  show ?case
  proof (cases "2 \<le> x")
    case True
    then have e: "expo x = expo (x / 2) + 1" using "1.prems" by (subst expo.simps) simp
    have "pow2 (expo (x / 2)) \<le> x / 2 \<and> x / 2 < pow2 (expo (x / 2) + 1)"
      using "1.IH"(1) "1.prems" True by simp
    then show ?thesis unfolding e pow2_add1 by simp
  next
    case False
    show ?thesis
    proof (cases "x < 1")
      case True
      then have e: "expo x = expo (2 * x) - 1" using "1.prems" False by (subst expo.simps) simp
      have "pow2 (expo (2 * x)) \<le> 2 * x \<and> 2 * x < pow2 (expo (2 * x) + 1)"
        using "1.IH"(2) "1.prems" True False by simp
      moreover have "pow2 (expo (2 * x)) = 2 * pow2 (expo (2 * x) - 1)"
        using pow2_add1[of "expo (2 * x) - 1"] by simp
      ultimately show ?thesis unfolding e pow2_add1 by simp
    next
      case False
      then have "expo x = 0" using \<open>\<not> 2 \<le> x\<close> "1.prems" by (subst expo.simps) simp
      then show ?thesis using False \<open>\<not> 2 \<le> x\<close> by (simp add: pow2_def)
    qed
  qed
qed

lemma pow2_powi: "pow2 e = 2 powi e"
  by (simp add: pow2_def power_int_def power_one_over[symmetric] inverse_eq_divide)

lemma pow2_mono: "a \<le> b \<Longrightarrow> pow2 a \<le> pow2 b"
  unfolding pow2_powi by (rule power_int_increasing) simp_all



lemma pow2_pos: "0 < pow2 e"
  by (simp add: pow2_def)

lemma pow2_add: "pow2 (a + b) = pow2 a * pow2 b"
  unfolding pow2_powi by (simp add: power_int_add)

lemma round_even_int: "round_even (of_int z) = z"
  by (simp add: round_even_def)

lemma fl_dyadic:
  assumes "\<bar>m\<bar> < 2 ^ 53"
  shows "fl (of_int m * pow2 k) = of_int m * pow2 k"
proof (cases "m = 0")
  case True
  then show ?thesis by (simp add: fl_def)
next
  case False
  define x where "x = of_int m * pow2 k"
  define e where "e = expo \<bar>x\<bar>"
  have x0: "x \<noteq> 0" using False pow2_pos[of k] by (simp add: x_def)
  then have b: "pow2 e \<le> \<bar>x\<bar>" using expo_bounds[of "\<bar>x\<bar>"] by (simp add: e_def)
  have "\<bar>x\<bar> = of_int \<bar>m\<bar> * pow2 k" using pow2_pos[of k] by (simp add: x_def abs_mult)
  also have "\<dots> < 2 ^ 53 * pow2 k"
  proof -
    have "(of_int \<bar>m\<bar> :: real) < of_int (2 ^ 53)" using assms by (simp only: of_int_less_iff)
    then show ?thesis using pow2_pos[of k] by simp
  qed
  also have "\<dots> = pow2 (53 + k)" by (simp add: pow2_add) (simp add: pow2_def)
  finally have "pow2 e < pow2 (53 + k)" using b by simp
  then have "e < 53 + k" using pow2_mono[of "53 + k" e] by (cases "e < 53 + k") auto
  then obtain n where n: "k - (e - 52) = int n" using nonneg_int_cases[of "k - (e - 52)"] by auto
  have "k = int n + (e - 52)" using n by simp
  then have "pow2 k = pow2 (int n) * pow2 (e - 52)"
    by (simp only: pow2_add)
  then have k: "pow2 k = 2 ^ n * pow2 (e - 52)" by (simp add: pow2_def)
  have "x / pow2 (e - 52) = of_int (m * 2 ^ n)"
    using pow2_pos[of "e - 52"] by (simp add: x_def k)
  then have "round_even (x / pow2 (e - 52)) = m * 2 ^ n" by (simp only: round_even_int)
  then have "fl x = of_int (m * 2 ^ n) * pow2 (e - 52)" using x0 by (simp add: fl_def e_def)
  also have "\<dots> = x" by (simp add: x_def k)
  finally show ?thesis by (simp add: x_def)
qed

lemma is_double_dyadic: "\<bar>m\<bar> < 2 ^ 53 \<Longrightarrow> is_double (of_int m * pow2 k)"
  by (simp add: is_double_def fl_dyadic)

lemma is_double_int: "\<bar>m\<bar> < 2 ^ 53 \<Longrightarrow> is_double (of_int m)"
  using is_double_dyadic[of m 0] by (simp add: pow2_def)

section \<open>The time grid: evaluation\<close>




lemma time_grid_exact:
  assumes k: "0 < k" and ne: "t1 \<noteq> t0"
    and a: "is_double (t1 - t0)" and b: "is_double (real k)"
    and d: "is_double ((t1 - t0) / real k)"
    and p: "\<forall>i<k. is_double (real i * ((t1 - t0) / real k)) \<and>
                  is_double (t0 + real i * ((t1 - t0) / real k))"
  shows "time_grid rt rank (PyTuple [t0, t1, real k + 1]) =
           ([], Inr (NdArray (map (\<lambda>i. t0 + real i * ((t1 - t0) / real k)) [0..<k])))"
proof -
  define dt where "dt = (t1 - t0) / real k"
  have dt0: "dt \<noteq> 0" using k ne by (simp add: dt_def)
  have fa: "fl (t1 - t0) = t1 - t0" and fb: "fl (real k) = real k" and fd: "fl dt = dt"
    using a b d by (simp_all add: is_double_def dt_def)
  have q: "(t1 - t0) / dt = real k" using k ne by (simp add: dt_def)
  have len: "arange_length t0 t1 dt = k"
    by (simp add: arange_length_def fa q fb)
  have fill: "arange_fill t0 dt i = t0 + real i * dt" if "i < k" for i
  proof -
    have e: "fl (real j * dt) = real j * dt" "fl (t0 + real j * dt) = t0 + real j * dt"
      if "j < k" for j
      using p that by (simp_all add: is_double_def dt_def)
    show ?thesis
    proof (cases "i = 0")
      case True
      then show ?thesis by (simp add: arange_fill_def)
    next
      case False
      have one: "fl (t0 + dt) = t0 + dt" using e(2)[of 1] that False by (cases "k = 1") auto
      show ?thesis
      proof (cases "i = 1")
        case True
        then show ?thesis by (simp add: arange_fill_def one)
      next
        case False
        then show ?thesis using \<open>i \<noteq> 0\<close> e[OF that] by (simp add: arange_fill_def one fd)
      qed
    qed
  qed
  have "map (arange_fill t0 dt) [0..<k] = map (\<lambda>i. t0 + real i * dt) [0..<k]"
    by (rule map_cong) (simp_all add: fill)
  then have "np_arange t0 t1 dt = Inr (map (\<lambda>i. t0 + real i * dt) [0..<k])"
    by (simp add: np_arange_def dt0 len)
  moreover have "fl (real k + 1 - 1) \<noteq> 0" using k by (simp add: fb)
  moreover have "fl (fl (t1 - t0) / fl (real k + 1 - 1)) = dt"
    using fd by (simp add: fa fb dt_def)
  ultimately show ?thesis by (simp add: time_grid_def dt_def)
qed


lemma quarter: "is_double (1 / 4)" "is_double (1 / 2)" "is_double (3 / 4)"
  using is_double_dyadic[of 1 "- 2"] is_double_dyadic[of 1 "- 1"] is_double_dyadic[of 3 "- 2"]
  by (simp_all add: pow2_def)

lemma small_ints: "is_double 0" "is_double 1" "is_double 2" "is_double 3" "is_double 4"
  using is_double_int[of 0] is_double_int[of 1] is_double_int[of 2] is_double_int[of 3]
    is_double_int[of 4]
  by simp_all

lemma example_grid:
  "time_grid rt rank (PyTuple [0, 1, 5]) = ([], Inr (NdArray [0, 1 / 4, 1 / 2, 3 / 4]))"
proof -
  have u: "[0..<4] = [0, 1, 2, 3::nat]" by (simp add: upt_rec)
  have "\<forall>i<4::nat. is_double (real i * ((1 - 0) / real 4)) \<and>
                   is_double (0 + real i * ((1 - 0) / real 4))"
  proof (intro allI impI)
    fix i :: nat assume "i < 4"
    then consider "i = 0" | "i = 1" | "i = 2" | "i = 3" by linarith
    then show "is_double (real i * ((1 - 0) / real 4)) \<and>
               is_double (0 + real i * ((1 - 0) / real 4))"
      by cases (simp_all add: quarter small_ints)
  qed
  then show ?thesis
    using time_grid_exact[of 4 1 0 rt rank] by (simp add: quarter small_ints u)
qed

lemma steps_two_grid:
  "time_grid rt rank (PyTuple [0, 1, 2]) = ([], Inr (NdArray [0]))"
  using time_grid_exact[of 1 1 0 rt rank] by (simp add: small_ints)

lemma steps_one_error:
  "time_grid rt rank (PyTuple [t0, t1, 1]) = ([], Inl ZeroDivisionError)"
  by (simp add: time_grid_def fl_def)






section \<open>The time grid: claims\<close>




text \<open>
  Claim C10, on the code. A tuple with \<open>steps = 1\<close> divides by zero, with no check before
  the division. The tuple \<open>(0.0, 1.0, 2)\<close> gives the grid \<open>[0.0]\<close>: one point, where the
  docstring of \<open>evolve\<close> promises as many output times as \<open>steps\<close> says, the last being the
  final time.
\<close>

theorem steps_one_division_by_zero:
  "time_grid rt rank (PyTuple [t0, t1, 1]) = ([], Inl ZeroDivisionError) \<and>
   time_grid rt rank (PyTuple [0, 1, 2]) = ([], Inr (NdArray [0]))"
  using steps_one_error[of rt rank t0 t1] steps_two_grid[of rt rank] by simp

section \<open>The trajectory loop and the run of one process\<close>

lemma loop_body_step:
  "loop_body E cfg sampling t seeds (ds, hs) k =
     (ds @ [observed E cfg sampling t (seeds ! k)],
      hs @ (if verbose cfg then dhwdt_abs2_of E cfg sampling t (seeds ! k) else []))"
  by (simp add: loop_body_def observed_def dhwdt_abs2_of_def Let_def)

lemma trajectory_loop_prefix:
  "k \<le> length seeds \<Longrightarrow>
   foldl (loop_body E cfg sampling t seeds) (ds, hs) [0..<k] =
     (ds @ map (observed E cfg sampling t) (take k seeds),
      hs @ (if verbose cfg then concat (map (dhwdt_abs2_of E cfg sampling t) (take k seeds))
            else []))"
proof (induction k)
  case 0
  show ?case by simp
next
  case (Suc k)
  then have k: "k < length seeds" by simp
  show ?case
    using Suc.IH k by (simp add: loop_body_step take_Suc_conv_app_nth)
qed

lemma trajectory_loop_eq:
  "trajectory_loop E cfg sampling t seeds (length seeds) =
     (map (observed E cfg sampling t) seeds,
      if verbose cfg then concat (map (dhwdt_abs2_of E cfg sampling t) seeds) else [])"
  unfolding trajectory_loop_def using trajectory_loop_prefix[of "length seeds" seeds] by simp

lemma round_robin_total:
  assumes "0 < P"
  shows "\<exists>k. round_robin n P r = Some k"
  unfolding round_robin_def nt_loc_loop_closed[OF assms] by simp

lemma gather_ntlocs_total:
  assumes "0 < P"
  shows "\<exists>ks. gather_ntlocs n P = Some ks \<and> length ks = P \<and>
              (\<forall>r<P. round_robin n P r = Some (ks ! r))"
proof -
  define f where "f r = the (round_robin n P r)" for r
  have "round_robin n P r = Some (f r)" for r
    using round_robin_total[OF assms, of n r] by (auto simp: f_def)
  then have "gather_ntlocs n P = Some (map f [0..<P])"
    unfolding gather_ntlocs_def by (intro those_map_Some) simp
  moreover have "\<forall>r<P. round_robin n P r = Some (map f [0..<P] ! r)"
    using \<open>\<And>r. round_robin n P r = Some (f r)\<close> by simp
  ultimately show ?thesis by simp
qed

lemma length_scatterv:
  "length (scatterv sendbuf counts displs r (replicate k 0)) = k"
  by (simp add: scatterv_def Let_def)

lemma local_seeds_total:
  assumes "0 < P" "r < P"
  shows "\<exists>seeds. local_seeds rt n P r = Some seeds \<and> round_robin n P r = Some (length seeds)"
proof -
  obtain ks where ks: "gather_ntlocs n P = Some ks" "\<forall>r<P. round_robin n P r = Some (ks ! r)"
    using gather_ntlocs_total[OF assms(1)] by blast
  then have "round_robin n P r = Some (ks ! r)" using assms(2) by simp
  then show ?thesis using ks(1) by (simp add: local_seeds_def length_scatterv)
qed

lemma local_work_eq:
  assumes "local_seeds (root_rank cfg) (n_t cfg) P r = Some seeds"
    "round_robin (n_t cfg) P r = Some (length seeds)"
  shows "local_work E cfg P sampling t r =
     Some (map (observed E cfg sampling t) seeds,
           if verbose cfg then concat (map (dhwdt_abs2_of E cfg sampling t) seeds) else [])"
  unfolding local_work_def assms by (simp add: trajectory_loop_eq)

lemma all_work:
  assumes "0 < P"
  shows "\<exists>blocks. those (map (local_seeds (root_rank cfg) (n_t cfg) P) [0..<P]) = Some blocks \<and>
     length blocks = P \<and>
     those (map (local_work E cfg P sampling t) [0..<P]) =
       Some (map (\<lambda>seeds. (map (observed E cfg sampling t) seeds,
                             if verbose cfg
                             then concat (map (dhwdt_abs2_of E cfg sampling t) seeds) else []))
               blocks)"
proof -
  define f where "f r = the (local_seeds (root_rank cfg) (n_t cfg) P r)" for r
  have f: "local_seeds (root_rank cfg) (n_t cfg) P r = Some (f r) \<and>
           round_robin (n_t cfg) P r = Some (length (f r))" if "r < P" for r
    using local_seeds_total[OF assms that, of "root_rank cfg" "n_t cfg"] by (auto simp: f_def)
  have a: "those (map (local_seeds (root_rank cfg) (n_t cfg) P) [0..<P]) = Some (map f [0..<P])"
    by (rule those_map_Some) (simp add: f)
  have "those (map (local_work E cfg P sampling t) [0..<P]) =
       Some (map (\<lambda>r. (map (observed E cfg sampling t) (f r),
                         if verbose cfg
                         then concat (map (dhwdt_abs2_of E cfg sampling t) (f r)) else []))
               [0..<P])"
    by (rule those_map_Some) (use f in \<open>simp add: local_work_eq\<close>)
  then have "those (map (local_work E cfg P sampling t) [0..<P]) =
       Some (map (\<lambda>seeds. (map (observed E cfg sampling t) seeds,
                             if verbose cfg
                             then concat (map (dhwdt_abs2_of E cfg sampling t) seeds) else []))
               (map f [0..<P]))"
    by (simp add: comp_def)
  with a show ?thesis by (intro exI[of _ "map f [0..<P]"]) simp
qed

lemma dtwa_bbgky_run:
  assumes tg: "time_grid (root_rank cfg) (comm_rank c) ti = (msgs, Inr t)"
    and rt: "root_rank cfg < comm_size c"
    and bl: "those (map (local_seeds (root_rank cfg) (n_t cfg) (comm_size c)) [0..<comm_size c]) =
             Some blocks"
  shows "final (dtwa_bbgky E cfg c ti sampling) =
           (if comm_rank c = root_rank cfg
            then Inr (Some (normalize_data (corr_factor E) (n_t cfg) (latsize cfg)
                    (channel_totals (map (map (observed E cfg sampling t)) blocks) t)))
            else Inr None)"
    and "calls (dtwa_bbgky E cfg c ti sampling) =
           [Gather, Scatterv, SumReduceAllData] @ (if verbose cfg then [Reduce] else []) @
           (if comm_rank c = root_rank cfg then [NormalizeData] else [])"
    and "dhwdt_abs_totals (dtwa_bbgky E cfg c ti sampling) =
           (if verbose cfg \<and> comm_rank c = root_rank cfg
            then Some (np_sqrt (nd_div
                   (sum_list (map (\<lambda>seeds. sum_list (concat (map (dhwdt_abs2_of E cfg sampling t) seeds)))
                      blocks))
                   (real_of_int (n_t cfg) * real (latsize cfg) * real (latsize cfg))))
            else None)"
    and "stdout (dtwa_bbgky E cfg c ti sampling) =
           header cfg c @ msgs @
           (if comm_rank c = root_rank cfg
            then (if verbose cfg
                  then [Line ''t-deriv of Hamilt (abs square) with wigner avg: '', Line ''  '',
                        Table t (np_sqrt (nd_div
                          (sum_list (map (\<lambda>seeds. sum_list (concat
                             (map (dhwdt_abs2_of E cfg sampling t) seeds))) blocks))
                          (real_of_int (n_t cfg) * real (latsize cfg) * real (latsize cfg))))]
                  else []) @ [Line ''# Done!'']
            else [])"
proof -
  have P: "0 < comm_size c" using rt by simp
  obtain k where k: "round_robin (n_t cfg) (comm_size c) (comm_rank c) = Some k"
    using round_robin_total[OF P] by blast
  have w: "those (map (local_work E cfg (comm_size c) sampling t) [0..<comm_size c]) =
       Some (map (\<lambda>seeds. (map (observed E cfg sampling t) seeds,
                             if verbose cfg
                             then concat (map (dhwdt_abs2_of E cfg sampling t) seeds) else []))
               blocks)"
    using all_work[OF P, of cfg E sampling t] bl by auto
  show "final (dtwa_bbgky E cfg c ti sampling) =
           (if comm_rank c = root_rank cfg
            then Inr (Some (normalize_data (corr_factor E) (n_t cfg) (latsize cfg)
                    (channel_totals (map (map (observed E cfg sampling t)) blocks) t)))
            else Inr None)"
    using rt by (simp add: dtwa_bbgky_def tg k w Let_def sum_reduce_all_data_def comp_def)
  show "calls (dtwa_bbgky E cfg c ti sampling) =
           [Gather, Scatterv, SumReduceAllData] @ (if verbose cfg then [Reduce] else []) @
           (if comm_rank c = root_rank cfg then [NormalizeData] else [])"
    using rt by (simp add: dtwa_bbgky_def tg k w Let_def sum_reduce_all_data_def comp_def)
  show "dhwdt_abs_totals (dtwa_bbgky E cfg c ti sampling) =
           (if verbose cfg \<and> comm_rank c = root_rank cfg
            then Some (np_sqrt (nd_div
                   (sum_list (map (\<lambda>seeds. sum_list (concat (map (dhwdt_abs2_of E cfg sampling t) seeds)))
                      blocks))
                   (real_of_int (n_t cfg) * real (latsize cfg) * real (latsize cfg))))
            else None)"
    using rt by (simp add: dtwa_bbgky_def tg k w Let_def sum_reduce_all_data_def reduce_def comp_def)
  show "stdout (dtwa_bbgky E cfg c ti sampling) =
           header cfg c @ msgs @
           (if comm_rank c = root_rank cfg
            then (if verbose cfg
                  then [Line ''t-deriv of Hamilt (abs square) with wigner avg: '', Line ''  '',
                        Table t (np_sqrt (nd_div
                          (sum_list (map (\<lambda>seeds. sum_list (concat
                             (map (dhwdt_abs2_of E cfg sampling t) seeds))) blocks))
                          (real_of_int (n_t cfg) * real (latsize cfg) * real (latsize cfg))))]
                  else []) @ [Line ''# Done!'']
            else [])"
    using rt by (simp add: dtwa_bbgky_def tg k w Let_def sum_reduce_all_data_def reduce_def comp_def)
qed

lemma channel_total_concat:
  "channel_total all_local ch = sum_list (map ch (concat all_local))"
  unfolding channel_total_def by (induction all_local) simp_all

lemma channel_totals_concat:
  "channel_totals all_local t = channel_totals [concat all_local] t"
  by (simp add: channel_totals_def channel_total_concat)

lemma round_robin_negative:
  assumes "0 < P" "n \<le> 0"
  shows "round_robin n P r = Some 0"
  unfolding round_robin_def nt_loc_loop_closed[OF assms(1)] using assms(2) by simp

lemma scatter_blocks_root0:
  assumes "0 < P"
  shows "\<exists>blocks. those (map (local_seeds 0 n P) [0..<P]) = Some blocks \<and> length blocks = P \<and>
           concat blocks = all_seeds n"
proof (cases "0 \<le> n")
  case True
  define m where "m = nat n"
  have n: "n = int m" using True by (simp add: m_def)
  define ks where "ks = map (\<lambda>r. (m + (P - 1 - r)) div P) [0..<P]"
  have ks: "gather_ntlocs n P = Some ks" "length ks = P" "sum_list ks = length (all_seeds n)"
    unfolding ks_def n using gather_ntlocs_closed[OF assms, of m] ntloc_sum[OF assms, of m]
    by (simp_all add: length_all_seeds)
  define blocks where
    "blocks = map (\<lambda>r. take (ks ! r) (drop (sum_list (take r ks)) (all_seeds n))) [0..<P]"
  have "those (map (local_seeds 0 n P) [0..<P]) = Some blocks"
    unfolding blocks_def
    by (rule those_map_Some) (use assms True ks in \<open>simp add: local_seeds_root0\<close>)
  moreover have "concat blocks = all_seeds n"
    using blocks_concat[of ks "all_seeds n"] ks by (simp add: blocks_def)
  moreover have "length blocks = P" by (simp add: blocks_def)
  ultimately show ?thesis by blast
next
  case False
  have "local_seeds 0 n P r = Some []" if r: "r < P" for r
  proof -
    obtain seeds where s: "local_seeds 0 n P r = Some seeds"
        "round_robin n P r = Some (length seeds)"
      using local_seeds_total[OF assms r] by blast
    moreover have "round_robin n P r = Some 0"
      using round_robin_negative[OF assms] False by simp
    ultimately show ?thesis by simp
  qed
  then have "those (map (local_seeds 0 n P) [0..<P]) = Some (map (\<lambda>r. []) [0..<P])"
    by (intro those_map_Some) simp
  moreover have "all_seeds n = []" using False by (simp add: all_seeds_def)
  ultimately show ?thesis by (intro exI[of _ "map (\<lambda>r. []) [0..<P]"]) simp
qed

lemma observed_verbose: "observed E (cfg\<lparr>verbose := v\<rparr>) sampling t = observed E cfg sampling t"
  by (rule ext) (simp add: observed_def integrate_def)

lemma stopped_final: "final (stopped out evs e) = Inl e"
  by (simp add: stopped_def)

lemma dtwa_bbgky_grid_error:
  assumes "time_grid (root_rank cfg) (comm_rank c) ti = (msgs, Inl e)"
  shows "final (dtwa_bbgky E cfg c ti sampling) = Inl e"
    and "calls (dtwa_bbgky E cfg c ti sampling) = []"
  by (simp_all add: dtwa_bbgky_def assms stopped_def Let_def)

lemma dtwa_bbgky_bad_root:
  assumes "time_grid (root_rank cfg) (comm_rank c) ti = (msgs, Inr t)"
    "\<not> root_rank cfg < comm_size c"
  shows "\<exists>e. final (dtwa_bbgky E cfg c ti sampling) = Inl e"
  by (simp add: dtwa_bbgky_def assms stopped_def Let_def split: option.splits)

section \<open>The example run\<close>

lemma example_blocks:
  "those (map (local_seeds 0 8 3) [0..<3]) = Some [[1, 2, 3], [4, 5, 6], [7, 8]]"
  by code_simp

lemma example_blocks_serial:
  "those (map (local_seeds 0 8 1) [0..<1]) = Some [[1, 2, 3, 4, 5, 6, 7, 8]]"
  by code_simp

lemma example_observed:
  "observed example_ext (example_config v) sampling t seed =
     \<lparr>t_out = t, sx = Array [real_of_int seed, 1], sy = Scalar 1, sz = Scalar 0,
      sxvar = Scalar 2, syvar = Scalar 0, szvar = Scalar 0, sxyvar = Scalar 0,
      sxzvar = Scalar 0, syzvar = Scalar 0\<rparr>"
  by (simp add: observed_def integrate_def example_ext_def example_config_def np_array_def)

lemma example_dhwdt:
  "dhwdt_abs2_of example_ext (example_config v) sampling t seed = [Array [4, 16]]"
  by (simp add: dhwdt_abs2_of_def integrate_def example_ext_def example_config_def np_square_def)

lemma example_final:
  "final (dtwa_bbgky example_ext (example_config v) \<lparr>comm_rank = 0, comm_size = 3\<rparr>
            (PyTuple [0, 1, 5]) ''spr'') =
   Inr (Some \<lparr>t_out = NdArray [0, 1 / 4, 1 / 2, 3 / 4], sx = Array [9 / 2, 1], sy = Scalar 1,
              sz = Scalar 0, sxvar = Scalar 1, syvar = Scalar 0, szvar = Scalar 0,
              sxyvar = Scalar 0, sxzvar = Scalar 0, syzvar = Scalar 0\<rparr>)"
proof -
  have c: "root_rank (example_config v) = 0" "n_t (example_config v) = 8"
    "latsize (example_config v) = 2"
    by (simp_all add: example_config_def)
  have "final (dtwa_bbgky example_ext (example_config v) \<lparr>comm_rank = 0, comm_size = 3\<rparr>
            (PyTuple [0, 1, 5]) ''spr'') =
     Inr (Some (normalize_data (corr_factor example_ext) 8 2
        (channel_totals (map (map (observed example_ext (example_config v) ''spr''
            (NdArray [0, 1 / 4, 1 / 2, 3 / 4]))) [[1, 2, 3], [4, 5, 6], [7, 8]])
          (NdArray [0, 1 / 4, 1 / 2, 3 / 4]))))"
    using dtwa_bbgky_run(1)[of "example_config v" "\<lparr>comm_rank = 0, comm_size = 3\<rparr>"
        "PyTuple [0, 1, 5]" "[]" "NdArray [0, 1 / 4, 1 / 2, 3 / 4]" "[[1, 2, 3], [4, 5, 6], [7, 8]]"
        example_ext "''spr''"]
    by (simp add: c example_grid example_blocks)
  moreover have "corr_factor example_ext 2 = 2" by (simp add: example_ext_def)
  ultimately show ?thesis
    by (simp add: example_observed channel_totals_def channel_total_def normalize_data_def
        nd_div_def)
qed

lemma example_final_other:
  "final (dtwa_bbgky example_ext (example_config v) \<lparr>comm_rank = 1, comm_size = 3\<rparr>
            (PyTuple [0, 1, 5]) ''spr'') = Inr None"
  using dtwa_bbgky_run(1)[of "example_config v" "\<lparr>comm_rank = 1, comm_size = 3\<rparr>"
        "PyTuple [0, 1, 5]" "[]" "NdArray [0, 1 / 4, 1 / 2, 3 / 4]" "[[1, 2, 3], [4, 5, 6], [7, 8]]"
        example_ext "''spr''"]
  by (simp add: example_config_def example_grid example_blocks)

section \<open>The run of the driver: claims\<close>

text \<open>
  Claim C4 fails on the code. A single scalar is neither a tuple nor a list, and yet the
  second test of the chain holds for it: the process prints no diagnostic, does not exit,
  and goes on with the scalar as \<open>t_output\<close> into the gather and the scatter. The two
  branches that would exit are never reached (and would exit with status 0). On the
  example with three workers and the scalar 5.0: rank 1 makes its collective calls and
  returns \<open>None\<close>, and rank 0 prints only the two lines of a normal run.
\<close>

theorem scalar_time_info_not_rejected:
  "time_grid rt rank (PyFloat x) = ([], Inr (PyFloat x)) \<and>
   calls (dtwa_bbgky example_ext (example_config False) \<lparr>comm_rank = 1, comm_size = 3\<rparr>
            (PyFloat 5) ''spr'') = [Gather, Scatterv, SumReduceAllData] \<and>
   final (dtwa_bbgky example_ext (example_config False) \<lparr>comm_rank = 1, comm_size = 3\<rparr>
            (PyFloat 5) ''spr'') = Inr None \<and>
   stdout (dtwa_bbgky example_ext (example_config False) \<lparr>comm_rank = 0, comm_size = 3\<rparr>
            (PyFloat 5) ''spr'') = [Line ''# Starting run ...'', Line ''# Done!'']"
proof -
  have g: "time_grid rt rank (PyFloat x) = ([], Inr (PyFloat x))" for rt rank x
    by (simp add: time_grid_def np_ndarray_truth_def)
  have k: "root_rank (example_config False) = 0" "n_t (example_config False) = 8"
    "\<not> verbose (example_config False)"
    by (simp_all add: example_config_def)
  note run = dtwa_bbgky_run[of "example_config False" _ "PyFloat 5" "[]" "PyFloat 5"
      "[[1, 2, 3], [4, 5, 6], [7, 8]]" example_ext "''spr''", unfolded k]
  have "calls (dtwa_bbgky example_ext (example_config False) \<lparr>comm_rank = 1, comm_size = 3\<rparr>
            (PyFloat 5) ''spr'') = [Gather, Scatterv, SumReduceAllData]"
    using run(2)[of "\<lparr>comm_rank = 1, comm_size = 3\<rparr>"] by (simp add: g example_blocks k)
  moreover have "final (dtwa_bbgky example_ext (example_config False)
      \<lparr>comm_rank = 1, comm_size = 3\<rparr> (PyFloat 5) ''spr'') = Inr None"
    using run(1)[of "\<lparr>comm_rank = 1, comm_size = 3\<rparr>"] by (simp add: g example_blocks)
  moreover have "stdout (dtwa_bbgky example_ext (example_config False)
      \<lparr>comm_rank = 0, comm_size = 3\<rparr> (PyFloat 5) ''spr'') =
      [Line ''# Starting run ...'', Line ''# Done!'']"
    using run(4)[of "\<lparr>comm_rank = 0, comm_size = 3\<rparr>"]
    by (simp add: g example_blocks k header_def)
  ultimately show ?thesis using g by simp
qed

lemma seed_blocks_exist:
  assumes "rt < P"
  shows "\<exists>blocks. those (map (local_seeds rt n P) [0..<P]) = Some blocks"
proof -
  define f where "f r = the (local_seeds rt n P r)" for r
  have "local_seeds rt n P r = Some (f r)" if "r < P" for r
    using local_seeds_total[of P r rt n] that assms by (auto simp: f_def)
  then have "those (map (local_seeds rt n P) [0..<P]) = Some (map f [0..<P])"
    by (intro those_map_Some) simp
  then show ?thesis by blast
qed

text \<open>
  Claim C5. Whenever a process returns from the driver, the time grid was built and every
  worker received its seeds; the coordinating process returns the completed dataset, which
  is the normalised sum of the observables of all workers' seeds on that grid, and every
  other process returns \<open>None\<close>. A process does return whenever the time grid is built and
  the coordinating rank belongs to the group.
\<close>

theorem return_contract:
  "(final (dtwa_bbgky E cfg c ti sampling) = Inr v \<longrightarrow>
      (\<exists>msgs t blocks.
         time_grid (root_rank cfg) (comm_rank c) ti = (msgs, Inr t) \<and>
         those (map (local_seeds (root_rank cfg) (n_t cfg) (comm_size c)) [0..<comm_size c]) =
           Some blocks \<and>
         (comm_rank c = root_rank cfg \<longrightarrow>
            v = Some (normalize_data (corr_factor E) (n_t cfg) (latsize cfg)
                  (channel_totals (map (map (observed E cfg sampling t)) blocks) t))) \<and>
         (comm_rank c \<noteq> root_rank cfg \<longrightarrow> v = None))) \<and>
   (time_grid (root_rank cfg) (comm_rank c) ti = (msgs', Inr t') \<and>
    root_rank cfg < comm_size c \<longrightarrow>
      (\<exists>w. final (dtwa_bbgky E cfg c ti sampling) = Inr w))"
proof -
  obtain ms res where tg: "time_grid (root_rank cfg) (comm_rank c) ti = (ms, res)"
    by (cases "time_grid (root_rank cfg) (comm_rank c) ti")
  have a: "\<exists>msgs t blocks.
         time_grid (root_rank cfg) (comm_rank c) ti = (msgs, Inr t) \<and>
         those (map (local_seeds (root_rank cfg) (n_t cfg) (comm_size c)) [0..<comm_size c]) =
           Some blocks \<and>
         (comm_rank c = root_rank cfg \<longrightarrow>
            v = Some (normalize_data (corr_factor E) (n_t cfg) (latsize cfg)
                  (channel_totals (map (map (observed E cfg sampling t)) blocks) t))) \<and>
         (comm_rank c \<noteq> root_rank cfg \<longrightarrow> v = None)"
    if f: "final (dtwa_bbgky E cfg c ti sampling) = Inr v"
  proof (cases res)
    case (Inl e)
    then show ?thesis using dtwa_bbgky_grid_error(1)[of cfg c ti ms e E sampling] tg f by simp
  next
    case (Inr t)
    show ?thesis
    proof (cases "root_rank cfg < comm_size c")
      case False
      then show ?thesis using dtwa_bbgky_bad_root[of cfg c ti ms t E sampling] tg Inr f by auto
    next
      case True
      from seed_blocks_exist[OF True] obtain blocks where bl:
        "those (map (local_seeds (root_rank cfg) (n_t cfg) (comm_size c)) [0..<comm_size c]) =
         Some blocks" by blast
      have g: "time_grid (root_rank cfg) (comm_rank c) ti = (ms, Inr t)" using tg Inr by simp
      from dtwa_bbgky_run(1)[OF g True bl, of E sampling] f
      have "(comm_rank c = root_rank cfg \<longrightarrow>
            v = Some (normalize_data (corr_factor E) (n_t cfg) (latsize cfg)
                  (channel_totals (map (map (observed E cfg sampling t)) blocks) t))) \<and>
         (comm_rank c \<noteq> root_rank cfg \<longrightarrow> v = None)"
        by (auto split: if_splits)
      with g bl show ?thesis by blast
    qed
  qed
  have b: "\<exists>w. final (dtwa_bbgky E cfg c ti sampling) = Inr w"
    if g: "time_grid (root_rank cfg) (comm_rank c) ti = (msgs', Inr t')"
      and r: "root_rank cfg < comm_size c"
  proof -
    from seed_blocks_exist[OF r] obtain blocks where
      "those (map (local_seeds (root_rank cfg) (n_t cfg) (comm_size c)) [0..<comm_size c]) =
       Some blocks" by blast
    from dtwa_bbgky_run(1)[OF g r this, of E sampling] show ?thesis by simp
  qed
  from a b show ?thesis by blast
qed

text \<open>
  Three workers on the example: rank 0 returns the dataset of the eight seeds, rank 1
  returns \<open>None\<close>.
\<close>

theorem return_contract_witness:
  "final (dtwa_bbgky example_ext (example_config False) \<lparr>comm_rank = 0, comm_size = 3\<rparr>
            (PyTuple [0, 1, 5]) ''spr'') =
   Inr (Some \<lparr>t_out = NdArray [0, 1 / 4, 1 / 2, 3 / 4], sx = Array [9 / 2, 1], sy = Scalar 1,
              sz = Scalar 0, sxvar = Scalar 1, syvar = Scalar 0, szvar = Scalar 0,
              sxyvar = Scalar 0, sxzvar = Scalar 0, syzvar = Scalar 0\<rparr>) \<and>
   final (dtwa_bbgky example_ext (example_config False) \<lparr>comm_rank = 1, comm_size = 3\<rparr>
            (PyTuple [0, 1, 5]) ''spr'') = Inr None"
proof -
  let ?c = "\<lparr>comm_rank = 0, comm_size = 3\<rparr>"
  let ?cfg = "example_config False"
  let ?t = "NdArray [0, 1 / 4, 1 / 2, 3 / 4]"
  have k: "root_rank ?cfg = 0" "n_t ?cfg = 8" "latsize ?cfg = 2"
    by (simp_all add: example_config_def)
  have g: "time_grid (root_rank ?cfg) (comm_rank ?c) (PyTuple [0, 1, 5]) = ([], Inr ?t)"
    by (rule example_grid)
  have r: "root_rank ?cfg < comm_size ?c" by (simp add: k)
  obtain w where w: "final (dtwa_bbgky example_ext ?cfg ?c (PyTuple [0, 1, 5]) ''spr'') = Inr w"
    using return_contract[of example_ext ?cfg ?c "PyTuple [0, 1, 5]" "''spr''" None "[]" ?t] g r
    by blast
  from return_contract[of example_ext ?cfg ?c "PyTuple [0, 1, 5]" "''spr''" w] w
  obtain msgs t blocks where p:
    "time_grid (root_rank ?cfg) (comm_rank ?c) (PyTuple [0, 1, 5]) = (msgs, Inr t)"
    "those (map (local_seeds (root_rank ?cfg) (n_t ?cfg) (comm_size ?c)) [0..<comm_size ?c]) =
       Some blocks"
    "w = Some (normalize_data (corr_factor example_ext) (n_t ?cfg) (latsize ?cfg)
           (channel_totals (map (map (observed example_ext ?cfg ''spr'' t)) blocks) t))"
    by (auto simp: k)
  from p(1) g have t: "t = ?t" by simp
  from p(2) have bl: "blocks = [[1, 2, 3], [4, 5, 6], [7, 8]]"
    by (simp add: k example_blocks)
  have cf: "corr_factor example_ext 2 = 2" by (simp add: example_ext_def)
  have "w = Some \<lparr>t_out = ?t, sx = Array [9 / 2, 1], sy = Scalar 1,
              sz = Scalar 0, sxvar = Scalar 1, syvar = Scalar 0, szvar = Scalar 0,
              sxyvar = Scalar 0, sxzvar = Scalar 0, syzvar = Scalar 0\<rparr>"
    unfolding p(3) t bl k
    by (simp add: cf example_observed channel_totals_def channel_total_def normalize_data_def
        nd_div_def)
  with w show ?thesis using example_final_other[of False] by simp
qed

lemma normalize_data_channels:
  "sx (normalize_data cf w l d) = nd_div (sx d) (real_of_int w)"
  "sy (normalize_data cf w l d) = nd_div (sy d) (real_of_int w)"
  "sz (normalize_data cf w l d) = nd_div (sz d) (real_of_int w)"
  "sxvar (normalize_data cf w l d) = nd_div (sxvar d) (real_of_int w * cf l)"
  "syvar (normalize_data cf w l d) = nd_div (syvar d) (real_of_int w * cf l)"
  "szvar (normalize_data cf w l d) = nd_div (szvar d) (real_of_int w * cf l)"
  "sxyvar (normalize_data cf w l d) = nd_div (sxyvar d) (real_of_int w * cf l)"
  "sxzvar (normalize_data cf w l d) = nd_div (sxzvar d) (real_of_int w * cf l)"
  "syzvar (normalize_data cf w l d) = nd_div (syzvar d) (real_of_int w * cf l)"
  "t_out (normalize_data cf w l d) = t_out d"
  by (simp_all add: normalize_data_def)

text \<open>
  Claim C6. In a run that passes the time grid, the coordinating process calls
  \<open>normalize_data\<close> once, as its last call and after the one call of
  \<open>sum_reduce_all_data\<close>; no other process calls it. The dataset returned is the raw sum
  over all workers' trajectories with every channel divided by \<open>n_t\<close>, the correlation
  channels by the site-count factor as well, applied once. The reduction and the
  normalisation themselves are modelled from the spec.
\<close>

theorem normalization_once:
  assumes "time_grid (root_rank cfg) (comm_rank c) ti = (msgs, Inr t)"
    and "root_rank cfg < comm_size c"
  shows "\<exists>blocks raw.
     those (map (local_seeds (root_rank cfg) (n_t cfg) (comm_size c)) [0..<comm_size c]) =
       Some blocks \<and>
     raw = channel_totals (map (map (observed E cfg sampling t)) blocks) t \<and>
     (comm_rank c = root_rank cfg \<longrightarrow>
        final (dtwa_bbgky E cfg c ti sampling) =
          Inr (Some (normalize_data (corr_factor E) (n_t cfg) (latsize cfg) raw)) \<and>
        (\<exists>pre. calls (dtwa_bbgky E cfg c ti sampling) = pre @ [NormalizeData] \<and>
               SumReduceAllData \<in> set pre \<and> NormalizeData \<notin> set pre) \<and>
        count_list (calls (dtwa_bbgky E cfg c ti sampling)) NormalizeData = 1 \<and>
        count_list (calls (dtwa_bbgky E cfg c ti sampling)) SumReduceAllData = 1) \<and>
     (comm_rank c \<noteq> root_rank cfg \<longrightarrow>
        NormalizeData \<notin> set (calls (dtwa_bbgky E cfg c ti sampling)) \<and>
        final (dtwa_bbgky E cfg c ti sampling) = Inr None) \<and>
     sx (normalize_data (corr_factor E) (n_t cfg) (latsize cfg) raw) =
       nd_div (sx raw) (real_of_int (n_t cfg)) \<and>
     sy (normalize_data (corr_factor E) (n_t cfg) (latsize cfg) raw) =
       nd_div (sy raw) (real_of_int (n_t cfg)) \<and>
     sz (normalize_data (corr_factor E) (n_t cfg) (latsize cfg) raw) =
       nd_div (sz raw) (real_of_int (n_t cfg)) \<and>
     sxvar (normalize_data (corr_factor E) (n_t cfg) (latsize cfg) raw) =
       nd_div (sxvar raw) (real_of_int (n_t cfg) * corr_factor E (latsize cfg)) \<and>
     syvar (normalize_data (corr_factor E) (n_t cfg) (latsize cfg) raw) =
       nd_div (syvar raw) (real_of_int (n_t cfg) * corr_factor E (latsize cfg)) \<and>
     szvar (normalize_data (corr_factor E) (n_t cfg) (latsize cfg) raw) =
       nd_div (szvar raw) (real_of_int (n_t cfg) * corr_factor E (latsize cfg)) \<and>
     sxyvar (normalize_data (corr_factor E) (n_t cfg) (latsize cfg) raw) =
       nd_div (sxyvar raw) (real_of_int (n_t cfg) * corr_factor E (latsize cfg)) \<and>
     sxzvar (normalize_data (corr_factor E) (n_t cfg) (latsize cfg) raw) =
       nd_div (sxzvar raw) (real_of_int (n_t cfg) * corr_factor E (latsize cfg)) \<and>
     syzvar (normalize_data (corr_factor E) (n_t cfg) (latsize cfg) raw) =
       nd_div (syzvar raw) (real_of_int (n_t cfg) * corr_factor E (latsize cfg))"
proof -
  obtain blocks where bl:
    "those (map (local_seeds (root_rank cfg) (n_t cfg) (comm_size c)) [0..<comm_size c]) =
       Some blocks"
    using seed_blocks_exist[OF assms(2)] by blast
  define raw where "raw = channel_totals (map (map (observed E cfg sampling t)) blocks) t"
  note run = dtwa_bbgky_run[OF assms bl, of E sampling, folded raw_def]
  have root: "final (dtwa_bbgky E cfg c ti sampling) =
          Inr (Some (normalize_data (corr_factor E) (n_t cfg) (latsize cfg) raw)) \<and>
        (\<exists>pre. calls (dtwa_bbgky E cfg c ti sampling) = pre @ [NormalizeData] \<and>
               SumReduceAllData \<in> set pre \<and> NormalizeData \<notin> set pre) \<and>
        count_list (calls (dtwa_bbgky E cfg c ti sampling)) NormalizeData = 1 \<and>
        count_list (calls (dtwa_bbgky E cfg c ti sampling)) SumReduceAllData = 1"
    if "comm_rank c = root_rank cfg"
    unfolding run using that by simp
  have other: "NormalizeData \<notin> set (calls (dtwa_bbgky E cfg c ti sampling)) \<and>
        final (dtwa_bbgky E cfg c ti sampling) = Inr None"
    if "comm_rank c \<noteq> root_rank cfg"
    unfolding run using that by simp
  show ?thesis
    apply (rule exI[of _ blocks], rule exI[of _ raw])
    using bl root other by (simp add: normalize_data_channels raw_def)
qed

text \<open>
  The example with eight trajectories on three workers, at the coordinating rank.
\<close>

theorem normalization_once_witness:
  "final (dtwa_bbgky example_ext (example_config False) \<lparr>comm_rank = 0, comm_size = 3\<rparr>
            (PyTuple [0, 1, 5]) ''spr'') =
   Inr (Some \<lparr>t_out = NdArray [0, 1 / 4, 1 / 2, 3 / 4], sx = Array [9 / 2, 1], sy = Scalar 1,
              sz = Scalar 0, sxvar = Scalar 1, syvar = Scalar 0, szvar = Scalar 0,
              sxyvar = Scalar 0, sxzvar = Scalar 0, syzvar = Scalar 0\<rparr>) \<and>
   count_list (calls (dtwa_bbgky example_ext (example_config False)
      \<lparr>comm_rank = 0, comm_size = 3\<rparr> (PyTuple [0, 1, 5]) ''spr'')) NormalizeData = 1 \<and>
   calls (dtwa_bbgky example_ext (example_config False)
      \<lparr>comm_rank = 0, comm_size = 3\<rparr> (PyTuple [0, 1, 5]) ''spr'') =
     [Gather, Scatterv, SumReduceAllData, NormalizeData]"
proof -
  let ?c = "\<lparr>comm_rank = 0, comm_size = 3\<rparr>"
  let ?run = "dtwa_bbgky example_ext (example_config False) ?c (PyTuple [0, 1, 5]) ''spr''"
  have g: "time_grid (root_rank (example_config False)) (comm_rank ?c) (PyTuple [0, 1, 5]) =
           ([], Inr (NdArray [0, 1 / 4, 1 / 2, 3 / 4]))"
    by (rule example_grid)
  have r: "root_rank (example_config False) < comm_size ?c"
    by (simp add: example_config_def)
  have c: "comm_rank ?c = root_rank (example_config False)"
    by (simp add: example_config_def)
  from normalization_once[OF g r, of example_ext "''spr''"] c
  obtain pre where "calls ?run = pre @ [NormalizeData]" "count_list (calls ?run) NormalizeData = 1"
    by auto
  moreover have "calls ?run = [Gather, Scatterv, SumReduceAllData, NormalizeData]"
    using dtwa_bbgky_run(2)[OF g r, of "[[1, 2, 3], [4, 5, 6], [7, 8]]" example_ext "''spr''"]
    by (simp add: example_config_def example_blocks)
  ultimately show ?thesis using example_final[of False] by simp
qed

lemma serial_dataset_eq:
  "serial_dataset E cfg sampling t =
     normalize_data (corr_factor E) (n_t cfg) (latsize cfg)
       (channel_totals [map (observed E cfg sampling t) (all_seeds (n_t cfg))] t)"
  by (simp add: serial_dataset_def all_seeds_upto)

lemma final_root0:
  assumes "root_rank cfg = 0" "0 < P" "time_grid 0 0 ti = (msgs, Inr t)"
  shows "final (dtwa_bbgky E cfg \<lparr>comm_rank = 0, comm_size = P\<rparr> ti sampling) =
         Inr (Some (serial_dataset E cfg sampling t))"
proof -
  obtain blocks where bl: "those (map (local_seeds 0 (n_t cfg) P) [0..<P]) = Some blocks"
      "concat blocks = all_seeds (n_t cfg)"
    using scatter_blocks_root0[OF assms(2)] by blast
  have "channel_totals (map (map (observed E cfg sampling t)) blocks) t =
        channel_totals [map (observed E cfg sampling t) (all_seeds (n_t cfg))] t"
    by (subst channel_totals_concat) (simp add: bl(2) map_concat[symmetric])
  then show ?thesis
    using dtwa_bbgky_run(1)[of cfg "\<lparr>comm_rank = 0, comm_size = P\<rparr>" ti msgs t blocks E sampling]
      assms bl(1)
    by (simp add: serial_dataset_eq)
qed

text \<open>
  Claim C7. With the coordinating rank 0, the result of the coordinating process is the
  same for every number \<open>P > 0\<close> of workers as for one worker, and where the time grid is
  built it is the serial reference: the contributions of the seeds \<open>1, ..., n_t\<close> summed
  outside any partitioning and normalised. Sums are exact here, so the tolerance of the
  claim for the order of floating-point summation is not needed.
\<close>

theorem worker_count_independence:
  assumes "root_rank cfg = 0" "0 < P"
  shows "final (dtwa_bbgky E cfg \<lparr>comm_rank = 0, comm_size = P\<rparr> ti sampling) =
         final (dtwa_bbgky E cfg \<lparr>comm_rank = 0, comm_size = 1\<rparr> ti sampling) \<and>
         (\<forall>msgs t. time_grid 0 0 ti = (msgs, Inr t) \<longrightarrow>
            final (dtwa_bbgky E cfg \<lparr>comm_rank = 0, comm_size = P\<rparr> ti sampling) =
              Inr (Some (serial_dataset E cfg sampling t)))"
proof -
  obtain ms res where tg: "time_grid 0 0 ti = (ms, res)"
    by (cases "time_grid 0 0 ti")
  have "final (dtwa_bbgky E cfg \<lparr>comm_rank = 0, comm_size = P\<rparr> ti sampling) =
        final (dtwa_bbgky E cfg \<lparr>comm_rank = 0, comm_size = 1\<rparr> ti sampling)"
  proof (cases res)
    case (Inl e)
    have "final (dtwa_bbgky E cfg \<lparr>comm_rank = 0, comm_size = Q\<rparr> ti sampling) = Inl e" for Q
      using dtwa_bbgky_grid_error(1)[of cfg "\<lparr>comm_rank = 0, comm_size = Q\<rparr>" ti ms e E sampling]
        tg Inl assms(1) by simp
    then show ?thesis by simp
  next
    case (Inr t)
    have "final (dtwa_bbgky E cfg \<lparr>comm_rank = 0, comm_size = Q\<rparr> ti sampling) =
          Inr (Some (serial_dataset E cfg sampling t))" if "0 < Q" for Q
      using final_root0[OF assms(1) that, of ti ms t E sampling] tg Inr by simp
    from this[OF assms(2)] this[of 1] show ?thesis by simp
  qed
  moreover have "final (dtwa_bbgky E cfg \<lparr>comm_rank = 0, comm_size = P\<rparr> ti sampling) =
              Inr (Some (serial_dataset E cfg sampling t))"
    if "time_grid 0 0 ti = (msgs, Inr t)" for msgs t
    using final_root0[OF assms that] .
  ultimately show ?thesis by blast
qed

text \<open>
  Eight trajectories: three workers with the seeds \<open>{1,2,3}, {4,5,6}, {7,8}\<close> against one.
\<close>

theorem worker_count_independence_witness:
  "final (dtwa_bbgky example_ext (example_config False) \<lparr>comm_rank = 0, comm_size = 3\<rparr>
            (PyTuple [0, 1, 5]) ''spr'') =
   final (dtwa_bbgky example_ext (example_config False) \<lparr>comm_rank = 0, comm_size = 1\<rparr>
            (PyTuple [0, 1, 5]) ''spr'') \<and>
   final (dtwa_bbgky example_ext (example_config False) \<lparr>comm_rank = 0, comm_size = 1\<rparr>
            (PyTuple [0, 1, 5]) ''spr'') =
   Inr (Some \<lparr>t_out = NdArray [0, 1 / 4, 1 / 2, 3 / 4], sx = Array [9 / 2, 1], sy = Scalar 1,
              sz = Scalar 0, sxvar = Scalar 1, syvar = Scalar 0, szvar = Scalar 0,
              sxyvar = Scalar 0, sxzvar = Scalar 0, syzvar = Scalar 0\<rparr>) \<and>
   those (map (local_seeds 0 8 3) [0..<3]) = Some [[1, 2, 3], [4, 5, 6], [7, 8]] \<and>
   those (map (local_seeds 0 8 1) [0..<1]) = Some [[1, 2, 3, 4, 5, 6, 7, 8]]"
  using worker_count_independence[of "example_config False" 3 example_ext "PyTuple [0, 1, 5]" "''spr''"]
    example_final[of False] example_blocks example_blocks_serial
  by (simp add: example_config_def)

text \<open>
  Claim C8. In verbose mode a run makes one more reduction, of the workers' sums of
  squared time derivatives; the coordinating process divides the total by
  \<open>n_t * N * N\<close> and takes the square root. Without verbose mode there is no such
  reduction and no diagnostic, and the result of every process is the same in both modes.
\<close>

theorem energy_drift_diagnostic:
  assumes "time_grid (root_rank cfg) (comm_rank c) ti = (msgs, Inr t)"
    and "root_rank cfg < comm_size c"
    and "verbose cfg"
  shows "\<exists>blocks.
     those (map (local_seeds (root_rank cfg) (n_t cfg) (comm_size c)) [0..<comm_size c]) =
       Some blocks \<and>
     (comm_rank c = root_rank cfg \<longrightarrow>
        dhwdt_abs_totals (dtwa_bbgky E cfg c ti sampling) =
          Some (np_sqrt (nd_div
            (sum_list (map (\<lambda>seeds. sum_list (concat (map (dhwdt_abs2_of E cfg sampling t) seeds)))
               blocks))
            (real_of_int (n_t cfg) * real (latsize cfg) * real (latsize cfg))))) \<and>
     count_list (calls (dtwa_bbgky E cfg c ti sampling)) Reduce = 1 \<and>
     count_list (calls (dtwa_bbgky E (cfg\<lparr>verbose := False\<rparr>) c ti sampling)) Reduce = 0 \<and>
     dhwdt_abs_totals (dtwa_bbgky E (cfg\<lparr>verbose := False\<rparr>) c ti sampling) = None \<and>
     final (dtwa_bbgky E cfg c ti sampling) =
       final (dtwa_bbgky E (cfg\<lparr>verbose := False\<rparr>) c ti sampling)"
proof -
  obtain blocks where bl:
    "those (map (local_seeds (root_rank cfg) (n_t cfg) (comm_size c)) [0..<comm_size c]) =
       Some blocks"
    using seed_blocks_exist[OF assms(2)] by blast
  note on = dtwa_bbgky_run[OF assms(1,2) bl, of E sampling]
  have off: "final (dtwa_bbgky E (cfg\<lparr>verbose := False\<rparr>) c ti sampling) =
           (if comm_rank c = root_rank cfg
            then Inr (Some (normalize_data (corr_factor E) (n_t cfg) (latsize cfg)
                    (channel_totals (map (map (observed E cfg sampling t)) blocks) t)))
            else Inr None)"
    "calls (dtwa_bbgky E (cfg\<lparr>verbose := False\<rparr>) c ti sampling) =
           [Gather, Scatterv, SumReduceAllData] @
           (if comm_rank c = root_rank cfg then [NormalizeData] else [])"
    "dhwdt_abs_totals (dtwa_bbgky E (cfg\<lparr>verbose := False\<rparr>) c ti sampling) = None"
    using dtwa_bbgky_run[of "cfg\<lparr>verbose := False\<rparr>" c ti msgs t blocks E sampling] assms(1,2) bl
    by (simp_all add: observed_verbose)
  have "dhwdt_abs_totals (dtwa_bbgky E cfg c ti sampling) =
          Some (np_sqrt (nd_div
            (sum_list (map (\<lambda>seeds. sum_list (concat (map (dhwdt_abs2_of E cfg sampling t) seeds)))
               blocks))
            (real_of_int (n_t cfg) * real (latsize cfg) * real (latsize cfg))))"
    if "comm_rank c = root_rank cfg"
    unfolding on(3) using that assms(3) by simp
  moreover have "count_list (calls (dtwa_bbgky E cfg c ti sampling)) Reduce = 1"
    unfolding on(2) using assms(3) by simp
  moreover have "count_list (calls (dtwa_bbgky E (cfg\<lparr>verbose := False\<rparr>) c ti sampling)) Reduce = 0"
    unfolding off(2) by simp
  moreover have "final (dtwa_bbgky E cfg c ti sampling) =
       final (dtwa_bbgky E (cfg\<lparr>verbose := False\<rparr>) c ti sampling)"
    unfolding on(1) off(1) ..
  ultimately show ?thesis using bl off(3) by blast
qed

text \<open>
  The example in verbose mode: the diagnostic is \<open>[1, 2]\<close>, the dataset is unchanged.
\<close>

theorem energy_drift_diagnostic_witness:
  "dhwdt_abs_totals (dtwa_bbgky example_ext (example_config True)
      \<lparr>comm_rank = 0, comm_size = 3\<rparr> (PyTuple [0, 1, 5]) ''spr'') = Some (Array [1, 2]) \<and>
   calls (dtwa_bbgky example_ext (example_config True)
      \<lparr>comm_rank = 0, comm_size = 3\<rparr> (PyTuple [0, 1, 5]) ''spr'') =
     [Gather, Scatterv, SumReduceAllData, Reduce, NormalizeData] \<and>
   final (dtwa_bbgky example_ext (example_config True)
      \<lparr>comm_rank = 0, comm_size = 3\<rparr> (PyTuple [0, 1, 5]) ''spr'') =
   final (dtwa_bbgky example_ext (example_config False)
      \<lparr>comm_rank = 0, comm_size = 3\<rparr> (PyTuple [0, 1, 5]) ''spr'')"
proof -
  let ?c = "\<lparr>comm_rank = 0, comm_size = 3\<rparr>"
  let ?cfg = "example_config True"
  let ?run = "dtwa_bbgky example_ext ?cfg ?c (PyTuple [0, 1, 5]) ''spr''"
  have g: "time_grid (root_rank ?cfg) (comm_rank ?c) (PyTuple [0, 1, 5]) =
           ([], Inr (NdArray [0, 1 / 4, 1 / 2, 3 / 4]))"
    by (rule example_grid)
  have r: "root_rank ?cfg < comm_size ?c" by (simp add: example_config_def)
  have v: "verbose ?cfg" by (simp add: example_config_def)
  have f: "?cfg\<lparr>verbose := False\<rparr> = example_config False" by (simp add: example_config_def)
  have s: "sqrt 4 = 2" using real_sqrt_abs[of 2] by simp
  have k: "root_rank ?cfg = 0" "n_t ?cfg = 8" "latsize ?cfg = 2"
    by (simp_all add: example_config_def)
  from energy_drift_diagnostic[OF g r v, of example_ext "''spr''"]
  have "dhwdt_abs_totals ?run =
          Some (np_sqrt (nd_div
            (sum_list (map (\<lambda>seeds. sum_list (concat (map (dhwdt_abs2_of example_ext ?cfg ''spr''
                (NdArray [0, 1 / 4, 1 / 2, 3 / 4])) seeds)))
               [[1, 2, 3], [4, 5, 6], [7, 8]]))
            (real_of_int (n_t ?cfg) * real (latsize ?cfg) * real (latsize ?cfg))))"
    and fr: "final ?run = final (dtwa_bbgky example_ext (example_config False) ?c
               (PyTuple [0, 1, 5]) ''spr'')"
    by (auto simp: example_blocks k f)
  then have "dhwdt_abs_totals ?run = Some (Array [1, 2])"
    by (simp add: example_dhwdt k np_sqrt_def nd_div_def s)
  moreover have "calls ?run = [Gather, Scatterv, SumReduceAllData, Reduce, NormalizeData]"
    using dtwa_bbgky_run(2)[OF g r, of "[[1, 2, 3], [4, 5, 6], [7, 8]]" example_ext "''spr''"]
    by (simp add: example_config_def example_blocks)
  ultimately show ?thesis using fr by simp
qed

lemma integrate_dtype: "dtype_of (integrate E cfg sampling t seed) = Float64"
  by (simp add: integrate_def split: prod.splits)

text \<open>
  Claim C9. For every seed that a worker receives, the observables are computed from the
  array \<open>np.array(s, dtype="float128")\<close>: it has the dtype \<open>float128\<close> and the entries of the
  double-precision array \<open>s\<close> that the integrator returned.
\<close>

theorem widened_before_observables:
  assumes "0 < P" "r < P"
  shows "\<exists>seeds hs.
     local_seeds (root_rank cfg) (n_t cfg) P r = Some seeds \<and>
     local_work E cfg P sampling t r =
       Some (map (\<lambda>seed. bbgky_observables E t
                    (np_array (integrate E cfg sampling t seed) Float128)) seeds, hs) \<and>
     (\<forall>seed. dtype_of (integrate E cfg sampling t seed) = Float64 \<and>
             dtype_of (np_array (integrate E cfg sampling t seed) Float128) = Float128 \<and>
             entries (np_array (integrate E cfg sampling t seed) Float128) =
               entries (integrate E cfg sampling t seed))"
proof -
  obtain seeds where s: "local_seeds (root_rank cfg) (n_t cfg) P r = Some seeds"
      "round_robin (n_t cfg) P r = Some (length seeds)"
    using local_seeds_total[OF assms] by blast
  have "local_work E cfg P sampling t r =
       Some (map (\<lambda>seed. bbgky_observables E t
                    (np_array (integrate E cfg sampling t seed) Float128)) seeds,
             if verbose cfg then concat (map (dhwdt_abs2_of E cfg sampling t) seeds) else [])"
    using local_work_eq[OF s, of E sampling t] by (simp add: observed_def[abs_def])
  with s(1) show ?thesis by (simp add: integrate_dtype np_array_def)
qed

text \<open>
  Rank 2 of three workers, with the seeds 7 and 8.
\<close>

theorem widened_before_observables_witness:
  "local_seeds 0 8 3 2 = Some [7, 8] \<and>
   (\<exists>hs. local_work example_ext (example_config False) 3 ''spr'' (NdArray [0]) 2 =
     Some (map (\<lambda>seed. bbgky_observables example_ext (NdArray [0])
                 (States Float128 [[real_of_int seed, 1]])) [7, 8], hs))"
proof -
  have l: "local_seeds 0 8 3 2 = Some [7, 8]" by code_simp
  have i: "np_array (integrate example_ext (example_config False) ''spr'' (NdArray [0]) seed)
             Float128 = States Float128 [[real_of_int seed, 1]]" for seed
    by (simp add: np_array_def integrate_def example_ext_def example_config_def)
  have k: "root_rank (example_config False) = 0" "n_t (example_config False) = 8"
    by (simp_all add: example_config_def)
  from widened_before_observables[of 3 2 "example_config False" example_ext "''spr''" "NdArray [0]"]
  obtain seeds hs where a:
    "local_seeds (root_rank (example_config False)) (n_t (example_config False)) 3 2 = Some seeds"
    "local_work example_ext (example_config False) 3 ''spr'' (NdArray [0]) 2 =
       Some (map (\<lambda>seed. bbgky_observables example_ext (NdArray [0])
                    (np_array (integrate example_ext (example_config False) ''spr'' (NdArray [0]) seed)
                       Float128)) seeds, hs)"
    by auto
  from a(1) l have "seeds = [7, 8]" by (simp add: k)
  with a(2) l show ?thesis by (simp add: i)
qed

end
